theory Spec2Isabelle
  imports Complex_Main
begin

section \<open>The ingestion pipeline of \<^verbatim>\<open>src/rag/ingest.py\<close>\<close>

text \<open>
  A shallow embedding of the Python module \<^verbatim>\<open>src/rag/ingest.py\<close>. Python values are the
  datatype \<open>pyval\<close>, exceptions are values of the datatype \<open>error\<close>, and everything the
  module does to the outside world (HTTP requests, file reads, printing, identifier
  generation) is an entry of an event log that every procedure takes and returns.
\<close>

subsection \<open>Text chunking (lines 63--73)\<close>

text \<open>
  A text is a \<open>string\<close>; a character is a code point below 256. The whitespace class of
  \<^verbatim>\<open>\s\<close> and of \<^verbatim>\<open>str.strip()\<close> on that range: U+0009..U+000D, U+001C..U+0020, U+0085
  and U+00A0.
\<close>

definition is_space :: "char \<Rightarrow> bool" where
  "is_space c =
     (let n = (of_char c :: nat)
      in (9 \<le> n \<and> n \<le> 13) \<or> (28 \<le> n \<and> n \<le> 32) \<or> n = 133 \<or> n = 160)"

text \<open>\<^verbatim>\<open>re.sub(r"\s+", " ", text)\<close>: every maximal run of whitespace becomes one space.\<close>

function re_sub_ws :: "string \<Rightarrow> string" where
  "re_sub_ws [] = []"
| "re_sub_ws (c # cs) =
     (if is_space c then CHR '' '' # re_sub_ws (dropWhile is_space cs)
      else c # re_sub_ws cs)"
  by pat_completeness auto
termination
  by (relation "measure length") (auto simp: less_Suc_eq_le length_dropWhile_le)

text \<open>\<^verbatim>\<open>str.strip()\<close>: leading and trailing whitespace removed.\<close>

definition strip :: "string \<Rightarrow> string" where
  "strip s = rev (dropWhile is_space (rev (dropWhile is_space s)))"

text \<open>Line 64, \<^verbatim>\<open>re.sub(r"\s+", " ", text).strip()\<close>.\<close>

definition normalize :: "string \<Rightarrow> string" where
  "normalize text = strip (re_sub_ws text)"

text \<open>
  A Python slice \<^verbatim>\<open>xs[i:j]\<close> for integer bounds: a negative bound counts from the end,
  and both are clamped to the range of the list.
\<close>

definition slice_index :: "int \<Rightarrow> int \<Rightarrow> int" where
  "slice_index n i = (if i < 0 then max (i + n) 0 else min i n)"

definition py_slice :: "'a list \<Rightarrow> int \<Rightarrow> int \<Rightarrow> 'a list" where
  "py_slice xs i j =
     (let n = int (length xs); lo = slice_index n i; hi = slice_index n j
      in take (nat (hi - lo)) (drop (nat lo) xs))"

text \<open>
  The \<^verbatim>\<open>while\<close> loop of lines 67--72 on the normalized text, with the loop variables
  \<open>i\<close> and \<open>chunks\<close> as arguments. The loop may run forever, so the result is an option
  and \<open>None\<close> is the run that never leaves the loop.
\<close>

partial_function (option) chunk_loop ::
  "string \<Rightarrow> int \<Rightarrow> int \<Rightarrow> int \<Rightarrow> string list \<Rightarrow> string list option" where
  "chunk_loop text max_chars overlap i chunks =
     (if i < int (length text) then
        (let j = min (i + max_chars) (int (length text))
         in chunk_loop text max_chars overlap
              (if j - overlap < 0 then 0 else j - overlap)
              (chunks @ [py_slice text i j]))
      else Some chunks)"

definition chunk_text :: "string \<Rightarrow> int \<Rightarrow> int \<Rightarrow> string list option" where
  "chunk_text text max_chars overlap = chunk_loop (normalize text) max_chars overlap 0 []"

subsection \<open>Python values, exceptions and effects\<close>

text \<open>
  A Python value as far as the module handles one: what \<^verbatim>\<open>response.json()\<close> returns and
  what the module builds for a request body. A dict is an association list with distinct
  keys, in insertion order. A float is carried around and never computed with.
\<close>

datatype pyval =
    PNone
  | PBool bool
  | PInt int
  | PFloat real
  | PStr string
  | PList "pyval list"
  | PDict "(string \<times> pyval) list"

text \<open>
  The three \<^verbatim>\<open>RuntimeError\<close>s of the module (lines 29, 91, 116 and 120); the one of
  line 116 carries the payload it prints.
\<close>

datatype runtime_error =
    MissingOpenAIKey
  | MissingHFToken
  | UnexpectedHFFormat pyval
  | UnknownProvider

datatype error =
    RuntimeError runtime_error
  | HTTPError nat
  | ConnectionError
  | JSONDecodeError
  | KeyError string
  | TypeError
  | OSError string
  | UnicodeDecodeError
  | OpenAIError

datatype 'a outcome = Returns 'a | Raises error | Diverges

text \<open>
  What \<^verbatim>\<open>open(path, "r", encoding="utf-8")\<close> followed by \<^verbatim>\<open>f.read()\<close> meets: a file
  that cannot be opened, one whose bytes are not UTF-8, or the decoded text.
\<close>

datatype file_read = CannotOpen | NotUtf8 | Text string

datatype request =
    GET string
  | PUT string pyval
  | POST string "(string \<times> string) list" pyval

record response =
  status_code :: nat
  json_body :: "pyval option"

text \<open>What the module prints, one constructor for each \<^verbatim>\<open>print\<close> call.\<close>

datatype message =
    Starting
  | UsingOpenAI
  | UsingHF string
  | UnknownProviderDefaultHF
  | CreatedCollection string
  | CollectionExists string
  | Ingesting string
  | Ingested nat
  | Done

text \<open>
  The effects, in the order the run performs them. A request is logged with the answer
  it got; \<open>None\<close> is a request that got none (the library raises instead).
\<close>

datatype event =
    Http request "response option"
  | OpenAIEmbeddings string "string list" "pyval list option"
  | FileRead string file_read
  | GlobFiles string "string list"
  | Uuid4 string
  | Print message

text \<open>
  The outside world: what each collaborator answers, given everything that has happened
  so far. \<open>openai_embeddings\<close> answers with the \<^verbatim>\<open>embedding\<close> of every item of
  \<^verbatim>\<open>res.data\<close>; \<open>file_text\<close> is what reading a file meets.
\<close>

record env =
  http :: "event list \<Rightarrow> request \<Rightarrow> response option"
  openai_embeddings :: "event list \<Rightarrow> string \<Rightarrow> string list \<Rightarrow> pyval list option"
  file_text :: "event list \<Rightarrow> string \<Rightarrow> file_read"
  glob_files :: "event list \<Rightarrow> string \<Rightarrow> string list"
  uuid4 :: "event list \<Rightarrow> string"

text \<open>The module's configuration (lines 12--22 and 27), read once from the environment.\<close>

record config =
  llm_provider :: string
  qdrant_url :: string
  collection :: string
  embed_dims :: int
  hf_api_token :: "string option"
  hf_embed_model :: string
  openai_api_key :: "string option"

definition USE_OPENAI :: "config \<Rightarrow> bool" where
  "USE_OPENAI cfg = (llm_provider cfg = ''openai'')"

definition USE_HF :: "config \<Rightarrow> bool" where
  "USE_HF cfg = (llm_provider cfg = ''hf'')"

text \<open>\<^verbatim>\<open>not s\<close> for an environment variable: unset or empty.\<close>

fun unset :: "string option \<Rightarrow> bool" where
  "unset None = True"
| "unset (Some s) = (s = [])"

type_synonym 'a io = "event list \<Rightarrow> 'a outcome \<times> event list"

definition io_return :: "'a \<Rightarrow> 'a io" where
  "io_return a h = (Returns a, h)"

definition io_raise :: "error \<Rightarrow> 'a io" where
  "io_raise e h = (Raises e, h)"

text \<open>Sequencing: an exception or a loop that never ends skips the rest.\<close>

definition io_bind :: "'a io \<Rightarrow> ('a \<Rightarrow> 'b io) \<Rightarrow> 'b io" where
  "io_bind m f h =
     (case m h of
        (Returns a, h') \<Rightarrow> f a h'
      | (Raises e, h') \<Rightarrow> (Raises e, h')
      | (Diverges, h') \<Rightarrow> (Diverges, h'))"

fun lift :: "error + 'a \<Rightarrow> 'a io" where
  "lift (Inl e) = io_raise e"
| "lift (Inr a) = io_return a"

definition print_msg :: "message \<Rightarrow> unit io" where
  "print_msg m h = (Returns (), h @ [Print m])"

text \<open>\<^verbatim>\<open>requests.get\<close>, \<^verbatim>\<open>requests.put\<close> and \<^verbatim>\<open>requests.post\<close>.\<close>

definition send :: "env \<Rightarrow> request \<Rightarrow> response io" where
  "send env req h =
     (let r = http env h req
      in (case r of None \<Rightarrow> Raises ConnectionError | Some resp \<Rightarrow> Returns resp,
          h @ [Http req r]))"

text \<open>
  \<^verbatim>\<open>Response.raise_for_status()\<close> raises for a client error (4xx) and for a server error
  (5xx), and for no other status.
\<close>

definition raise_for_status :: "response \<Rightarrow> unit io" where
  "raise_for_status r =
     (if 400 \<le> status_code r \<and> status_code r < 600
      then io_raise (HTTPError (status_code r)) else io_return ())"

definition response_json :: "response \<Rightarrow> pyval io" where
  "response_json r =
     (case json_body r of None \<Rightarrow> io_raise JSONDecodeError | Some v \<Rightarrow> io_return v)"

text \<open>\<^verbatim>\<open>v[k]\<close> for a string key: only a dict takes one.\<close>

fun subscript :: "pyval \<Rightarrow> string \<Rightarrow> error + pyval" where
  "subscript (PDict kvs) k =
     (case map_of kvs k of None \<Rightarrow> Inl (KeyError k) | Some v \<Rightarrow> Inr v)"
| "subscript v k = Inl TypeError"

text \<open>\<^verbatim>\<open>for c in v\<close>: the items of a list, the keys of a dict, the characters of a string.\<close>

fun iterate :: "pyval \<Rightarrow> error + pyval list" where
  "iterate (PList xs) = Inr xs"
| "iterate (PDict kvs) = Inr (map (\<lambda>kv. PStr (fst kv)) kvs)"
| "iterate (PStr s) = Inr (map (\<lambda>c. PStr [c]) s)"
| "iterate v = Inl TypeError"

subsection \<open>Qdrant via REST (lines 36--57)\<close>

definition qdrant_get_collections :: "config \<Rightarrow> env \<Rightarrow> pyval io" where
  "qdrant_get_collections cfg env =
     io_bind (send env (GET (qdrant_url cfg @ ''/collections''))) (\<lambda>r.
     io_bind (raise_for_status r) (\<lambda>_.
     io_bind (response_json r) (\<lambda>j.
     io_bind (lift (subscript j ''result'')) (\<lambda>res.
     lift (subscript res ''collections'')))))"

definition create_request :: "config \<Rightarrow> request" where
  "create_request cfg =
     PUT (qdrant_url cfg @ ''/collections/'' @ collection cfg)
       (PDict [(''vectors'',
          PDict [(''size'', PInt (embed_dims cfg)), (''distance'', PStr ''Cosine'')])])"

definition qdrant_create_collection :: "config \<Rightarrow> env \<Rightarrow> pyval io" where
  "qdrant_create_collection cfg env =
     io_bind (send env (create_request cfg)) (\<lambda>r.
     io_bind (raise_for_status r) (\<lambda>_.
     io_bind (print_msg (CreatedCollection (collection cfg))) (\<lambda>_.
     io_return PNone)))"

text \<open>The comprehension \<^verbatim>\<open>[c["name"] for c in ...]\<close> of line 53, on the items.\<close>

fun names_of :: "pyval list \<Rightarrow> error + pyval list" where
  "names_of [] = Inr []"
| "names_of (c # cs) =
     (case subscript c ''name'' of
        Inl e \<Rightarrow> Inl e
      | Inr n \<Rightarrow> (case names_of cs of Inl e \<Rightarrow> Inl e | Inr ns \<Rightarrow> Inr (n # ns)))"

text \<open>Line 53, the list \<open>cols\<close>.\<close>

definition collection_names :: "config \<Rightarrow> env \<Rightarrow> pyval list io" where
  "collection_names cfg env =
     io_bind (qdrant_get_collections cfg env) (\<lambda>cs.
     io_bind (lift (iterate cs)) (\<lambda>items.
     lift (names_of items)))"

definition ensure_collection :: "config \<Rightarrow> env \<Rightarrow> pyval io" where
  "ensure_collection cfg env =
     io_bind (collection_names cfg env) (\<lambda>cols.
     if PStr (collection cfg) \<notin> set cols then qdrant_create_collection cfg env
     else io_bind (print_msg (CollectionExists (collection cfg))) (\<lambda>_. io_return PNone))"

subsection \<open>Embeddings (lines 79--120)\<close>

fun isinstance_list :: "pyval \<Rightarrow> bool" where
  "isinstance_list (PList xs) = True"
| "isinstance_list v = False"

text \<open>\<^verbatim>\<open>isinstance(v, (int, float))\<close>; \<^verbatim>\<open>bool\<close> is a subclass of \<^verbatim>\<open>int\<close>.\<close>

fun isinstance_int_float :: "pyval \<Rightarrow> bool" where
  "isinstance_int_float (PInt n) = True"
| "isinstance_int_float (PFloat x) = True"
| "isinstance_int_float (PBool b) = True"
| "isinstance_int_float v = False"

text \<open>Lines 107--118: the vectors read off the payload of the Hugging Face answer.\<close>

fun hf_vectors :: "pyval \<Rightarrow> error + pyval list" where
  "hf_vectors (PList xs) =
     (if 0 < length xs \<and> isinstance_list (hd xs) then Inr xs
      else if 0 < length xs \<and> isinstance_int_float (hd xs) then Inr [PList xs]
      else Inr [])"
| "hf_vectors v = Inl (RuntimeError (UnexpectedHFFormat v))"

definition hf_request :: "config \<Rightarrow> string \<Rightarrow> string list \<Rightarrow> request" where
  "hf_request cfg token texts =
     POST (''https://api-inference.huggingface.co/models/'' @ hf_embed_model cfg)
       [(''Authorization'', ''Bearer '' @ token)]
       (PDict [(''inputs'', PList (map PStr texts))])"

definition openai_create :: "env \<Rightarrow> string \<Rightarrow> string list \<Rightarrow> pyval list io" where
  "openai_create env model texts h =
     (let r = openai_embeddings env h model texts
      in (case r of None \<Rightarrow> Raises OpenAIError | Some vs \<Rightarrow> Returns vs,
          h @ [OpenAIEmbeddings model texts r]))"

definition embed_batch :: "config \<Rightarrow> env \<Rightarrow> string list \<Rightarrow> pyval list io" where
  "embed_batch cfg env texts =
     (if USE_OPENAI cfg then openai_create env ''text-embedding-3-small'' texts
      else if USE_HF cfg then
        (case hf_api_token cfg of
           None \<Rightarrow> io_raise (RuntimeError MissingHFToken)
         | Some token \<Rightarrow>
             if token = [] then io_raise (RuntimeError MissingHFToken)
             else
               io_bind (send env (hf_request cfg token texts)) (\<lambda>response.
               io_bind (raise_for_status response) (\<lambda>_.
               io_bind (response_json response) (\<lambda>data.
               lift (hf_vectors data)))))
      else io_raise (RuntimeError UnknownProvider))"

subsection \<open>Qdrant upsert (lines 126--143)\<close>

text \<open>\<^verbatim>\<open>{**meta, key: v}\<close>: the key keeps its place when \<open>meta\<close> has it already.\<close>

fun dict_set :: "(string \<times> pyval) list \<Rightarrow> string \<Rightarrow> pyval \<Rightarrow> (string \<times> pyval) list" where
  "dict_set [] k v = [(k, v)]"
| "dict_set (p # ps) k v = (if fst p = k then (k, v) # ps else p # dict_set ps k v)"

definition point :: "string \<Rightarrow> pyval \<Rightarrow> (string \<times> pyval) list \<Rightarrow> string \<Rightarrow> pyval" where
  "point uid vec meta chunk =
     PDict [(''id'', PStr uid), (''vector'', vec),
            (''payload'', PDict (dict_set meta ''content'' (PStr chunk)))]"

text \<open>The \<^verbatim>\<open>for\<close> loop of lines 128--136 over the pairs of \<^verbatim>\<open>zip(chunks, vectors)\<close>.\<close>

fun build_points ::
  "env \<Rightarrow> (string \<times> pyval) list \<Rightarrow> (string \<times> pyval) list \<Rightarrow> pyval list \<Rightarrow> pyval list io" where
  "build_points env meta [] points h = (Returns points, h)"
| "build_points env meta ((chunk, vec) # rest) points h =
     (let uid = uuid4 env h
      in build_points env meta rest (points @ [point uid vec meta chunk]) (h @ [Uuid4 uid]))"

definition upsert_request :: "config \<Rightarrow> pyval list \<Rightarrow> request" where
  "upsert_request cfg points =
     PUT (qdrant_url cfg @ ''/collections/'' @ collection cfg @ ''/points'')
       (PDict [(''points'', PList points)])"

definition qdrant_upsert ::
  "config \<Rightarrow> env \<Rightarrow> string list \<Rightarrow> pyval list \<Rightarrow> (string \<times> pyval) list \<Rightarrow> pyval io" where
  "qdrant_upsert cfg env chunks vectors meta =
     io_bind (build_points env meta (zip chunks vectors) []) (\<lambda>points.
     io_bind (send env (upsert_request cfg points)) (\<lambda>r.
     io_bind (raise_for_status r) (\<lambda>_.
     io_return PNone)))"

subsection \<open>Ingestion (lines 149--165) and the main block (lines 171--185)\<close>

text \<open>\<^verbatim>\<open>path.split(os.sep)\<close> with \<^verbatim>\<open>os.sep\<close> the slash: empty pieces are kept.\<close>

fun split_sep :: "char \<Rightarrow> string \<Rightarrow> string list" where
  "split_sep sep [] = [[]]"
| "split_sep sep (c # cs) =
     (if c = sep then [] # split_sep sep cs
      else (case split_sep sep cs of [] \<Rightarrow> [[c]] | p # ps \<Rightarrow> (c # p) # ps))"

text \<open>\<^verbatim>\<open>os.path.basename\<close>: what follows the last slash.\<close>

definition basename :: "string \<Rightarrow> string" where
  "basename p = rev (takeWhile (\<lambda>c. c \<noteq> CHR ''/'') (rev p))"

text \<open>
  \<^verbatim>\<open>os.path.splitext\<close>: the extension starts at the last dot of the last path component,
  unless only dots stand before it there.
\<close>

definition splitext :: "string \<Rightarrow> string \<times> string" where
  "splitext p =
     (let name = basename p;
          ext = rev (takeWhile (\<lambda>c. c \<noteq> CHR ''.'') (rev name));
          stem = take (length name - length ext - 1) name
      in if CHR ''.'' \<in> set name \<and> list_ex (\<lambda>c. c \<noteq> CHR ''.'') stem
         then (take (length p - length ext - 1) p, drop (length p - length ext - 1) p)
         else (p, []))"

text \<open>Lines 152--157, the dict \<open>meta\<close>.\<close>

definition path_meta :: "string \<Rightarrow> (string \<times> pyval) list" where
  "path_meta path =
     (let parts = split_sep CHR ''/'' path
      in [(''doc_id'', PStr (fst (splitext (basename path)))),
          (''course_id'',
             PStr (if length parts \<ge> 3 then parts ! (length parts - 3) else ''general'')),
          (''module_id'',
             PStr (if length parts \<ge> 2 then parts ! (length parts - 2) else ''intro''))])"

text \<open>
  Lines 159--160: \<^verbatim>\<open>open\<close> raises \<^verbatim>\<open>OSError\<close> for a file that cannot be opened, and
  \<^verbatim>\<open>f.read()\<close> raises \<^verbatim>\<open>UnicodeDecodeError\<close> for bytes that are not UTF-8.
\<close>

definition read_text :: "env \<Rightarrow> string \<Rightarrow> string io" where
  "read_text env path h =
     (let r = file_text env h path
      in (case r of
            CannotOpen \<Rightarrow> Raises (OSError path)
          | NotUtf8 \<Rightarrow> Raises UnicodeDecodeError
          | Text s \<Rightarrow> Returns s,
          h @ [FileRead path r]))"

text \<open>Line 162, \<^verbatim>\<open>chunk_text(text)\<close> with the default parameters.\<close>

definition chunk_default :: "string \<Rightarrow> string list io" where
  "chunk_default s h =
     (case chunk_text s 800 200 of None \<Rightarrow> (Diverges, h) | Some chunks \<Rightarrow> (Returns chunks, h))"

text \<open>Lines 163--165, what \<open>ingest_doc\<close> does with the chunks once it has them.\<close>

definition ingest_chunks :: "config \<Rightarrow> env \<Rightarrow> string \<Rightarrow> string list \<Rightarrow> pyval io" where
  "ingest_chunks cfg env path chunks =
     io_bind (embed_batch cfg env chunks) (\<lambda>vectors.
     io_bind (qdrant_upsert cfg env chunks vectors (path_meta path)) (\<lambda>_.
     io_bind (print_msg (Ingested (length chunks))) (\<lambda>_.
     io_return PNone)))"

definition ingest_doc :: "config \<Rightarrow> env \<Rightarrow> string \<Rightarrow> pyval io" where
  "ingest_doc cfg env path =
     io_bind (print_msg (Ingesting path)) (\<lambda>_.
     io_bind (read_text env path) (\<lambda>s.
     io_bind (chunk_default s) (\<lambda>chunks.
     ingest_chunks cfg env path chunks)))"

text \<open>Lines 25--30, run when the module is loaded.\<close>

definition module_init :: "config \<Rightarrow> unit io" where
  "module_init cfg =
     (if USE_OPENAI cfg \<and> unset (openai_api_key cfg)
      then io_raise (RuntimeError MissingOpenAIKey) else io_return ())"

definition glob_txt :: "env \<Rightarrow> string \<Rightarrow> string list io" where
  "glob_txt env pat h = (let ps = glob_files env h pat in (Returns ps, h @ [GlobFiles pat ps]))"

text \<open>The \<^verbatim>\<open>for\<close> loop of lines 182--183.\<close>

fun ingest_all :: "config \<Rightarrow> env \<Rightarrow> string list \<Rightarrow> pyval io" where
  "ingest_all cfg env [] = io_return PNone"
| "ingest_all cfg env (path # paths) =
     io_bind (ingest_doc cfg env path) (\<lambda>_. ingest_all cfg env paths)"

definition main :: "config \<Rightarrow> env \<Rightarrow> pyval io" where
  "main cfg env =
     io_bind (module_init cfg) (\<lambda>_.
     io_bind (print_msg Starting) (\<lambda>_.
     io_bind (print_msg (if USE_OPENAI cfg then UsingOpenAI
                         else if USE_HF cfg then UsingHF (hf_embed_model cfg)
                         else UnknownProviderDefaultHF)) (\<lambda>_.
     io_bind (ensure_collection cfg env) (\<lambda>_.
     io_bind (glob_txt env ''data/**/*.txt'') (\<lambda>paths.
     io_bind (ingest_all cfg env paths) (\<lambda>_.
     io_bind (print_msg Done) (\<lambda>_.
     io_return PNone)))))))"

subsection \<open>Example configurations and collaborators\<close>

text \<open>The configuration the module has when only the Hugging Face token is set.\<close>

definition example_config :: config where
  "example_config =
     \<lparr>llm_provider = ''hf'', qdrant_url = ''http://localhost:6333'',
      collection = ''training_chunks'', embed_dims = 384, hf_api_token = Some ''token'',
      hf_embed_model = ''sentence-transformers/all-MiniLM-L6-v2'', openai_api_key = None\<rparr>"

definition openai_config :: config where
  "openai_config = example_config\<lparr>llm_provider := ''openai'', openai_api_key := Some ''key''\<rparr>"

text \<open>
  An outside world in which every HTTP request gets the same answer, the OpenAI client
  returns the given embeddings, no file exists, and the identifier generator hands out
  a longer identifier at every call.
\<close>

definition env_answering :: "response \<Rightarrow> pyval list \<Rightarrow> env" where
  "env_answering resp embeddings =
     \<lparr>http = (\<lambda>h req. Some resp),
      openai_embeddings = (\<lambda>h model texts. Some embeddings),
      file_text = (\<lambda>h path. CannotOpen),
      glob_files = (\<lambda>h pat. []),
      uuid4 = (\<lambda>h. replicate (Suc (length h)) CHR ''u'')\<rparr>"

definition ok :: "pyval \<Rightarrow> response" where
  "ok v = \<lparr>status_code = 200, json_body = Some v\<rparr>"

text \<open>The identifiers that \<open>n\<close> calls of \<^verbatim>\<open>uuid.uuid4()\<close> in a row return, from the log \<open>h\<close> on.\<close>

fun uuids :: "env \<Rightarrow> event list \<Rightarrow> nat \<Rightarrow> string list" where
  "uuids env h 0 = []"
| "uuids env h (Suc n) = (let uid = uuid4 env h in uid # uuids env (h @ [Uuid4 uid]) n)"

subsection \<open>Reading the log\<close>

text \<open>The create-collection requests of a log.\<close>

fun is_create :: "config \<Rightarrow> event \<Rightarrow> bool" where
  "is_create cfg (Http req r) = (req = create_request cfg)"
| "is_create cfg e = False"

text \<open>
  What ingesting a document does to the outside: reading a file, asking either provider
  for embeddings, and writing points.
\<close>

fun ingestion_event :: "config \<Rightarrow> event \<Rightarrow> bool" where
  "ingestion_event cfg (FileRead path r) = True"
| "ingestion_event cfg (OpenAIEmbeddings model texts r) = True"
| "ingestion_event cfg (Http (POST url headers body) r) = True"
| "ingestion_event cfg (Http (PUT url body) r) =
     (url = qdrant_url cfg @ ''/collections/'' @ collection cfg @ ''/points'')"
| "ingestion_event cfg e = False"

text \<open>
  An index service that has no collection until one is created, and lists the created
  one from then on; every request succeeds.
\<close>

definition listing :: "config \<Rightarrow> event list \<Rightarrow> pyval" where
  "listing cfg h =
     PDict [(''result'', PDict [(''collections'',
       PList (if list_ex (is_create cfg) h then [PDict [(''name'', PStr (collection cfg))]]
              else []))])]"

definition fresh_service :: "config \<Rightarrow> env" where
  "fresh_service cfg =
     \<lparr>http = (\<lambda>h req. Some (ok (listing cfg h))),
      openai_embeddings = (\<lambda>h model texts. None),
      file_text = (\<lambda>h path. CannotOpen),
      glob_files = (\<lambda>h pat. []),
      uuid4 = (\<lambda>h. replicate (Suc (length h)) CHR ''u'')\<rparr>"

text \<open>Two calls of \<open>ensure_collection\<close> in a row.\<close>

definition ensure_twice :: "config \<Rightarrow> env \<Rightarrow> pyval io" where
  "ensure_twice cfg env = io_bind (ensure_collection cfg env) (\<lambda>_. ensure_collection cfg env)"

text \<open>
  An index service with no collection yet that answers the create-collection request with
  the given status, beside a Hugging Face endpoint that answers with an empty list; every
  file holds the given text and the glob finds one document.
\<close>

definition scripted_service :: "config \<Rightarrow> nat \<Rightarrow> string \<Rightarrow> env" where
  "scripted_service cfg code content =
     \<lparr>http = (\<lambda>h req. Some (case req of
          GET url \<Rightarrow> ok (listing cfg [])
        | POST url headers body \<Rightarrow> ok (PList [])
        | PUT url body \<Rightarrow>
            if req = create_request cfg then \<lparr>status_code = code, json_body = None\<rparr>
            else ok PNone)),
      openai_embeddings = (\<lambda>h model texts. None),
      file_text = (\<lambda>h path. Text content),
      glob_files = (\<lambda>h pat. [''data/courseA/mod1/lesson.txt'']),
      uuid4 = (\<lambda>h. replicate (Suc (length h)) CHR ''u'')\<rparr>"

text \<open>A procedure that adds only events of kind \<open>Q\<close> to the log, whatever its outcome.\<close>

definition adds :: "(event \<Rightarrow> bool) \<Rightarrow> 'a io \<Rightarrow> bool" where
  "adds Q m = (\<forall>h. \<exists>new. snd (m h) = h @ new \<and> list_all Q new)"

section \<open>Properties\<close>

subsection \<open>Chunking\<close>

lemma chunk_loop_stuck:
  assumes ret: "chunk_loop doc max_chars overlap start chunks = Some r"
  shows "\<not> (0 < overlap \<and> 0 \<le> start \<and> start < int (length doc))"
proof (rule chunk_loop.raw_induct
    [where P = "\<lambda>t m ov i c y. \<not> (0 < ov \<and> 0 \<le> i \<and> i < int (length t))", OF _ ret])
  fix loop :: "string \<Rightarrow> int \<Rightarrow> int \<Rightarrow> int \<Rightarrow> string list \<Rightarrow> string list option"
    and t :: string and m ov i :: int and c y :: "string list"
  assume IH: "\<And>t m ov i c y. loop t m ov i c = Some y \<Longrightarrow>
    \<not> (0 < ov \<and> 0 \<le> i \<and> i < int (length t))"
  assume body: "(if i < int (length t) then
        (let j = min (i + m) (int (length t))
         in loop t m ov (if j - ov < 0 then 0 else j - ov) (c @ [py_slice t i j]))
      else Some c) = Some y"
  show "\<not> (0 < ov \<and> 0 \<le> i \<and> i < int (length t))"
  proof
    assume inv: "0 < ov \<and> 0 \<le> i \<and> i < int (length t)"
    define j where "j = min (i + m) (int (length t))"
    define i' where "i' = (if j - ov < 0 then 0 else j - ov)"
    from inv have "j \<le> int (length t)" by (simp add: j_def)
    with inv have next_in: "0 < ov \<and> 0 \<le> i' \<and> i' < int (length t)"
      by (auto simp: i'_def)
    from body inv have "loop t m ov i' (c @ [py_slice t i j]) = Some y"
      unfolding j_def i'_def Let_def by simp
    from IH [OF this] next_in show False by simp
  qed
qed

lemma chunk_loop_diverges:
  "0 < overlap \<Longrightarrow> 0 \<le> i \<Longrightarrow> i < int (length text) \<Longrightarrow>
   chunk_loop text max_chars overlap i chunks = None"
  using chunk_loop_stuck [of "text" max_chars overlap i chunks]
  by (cases "chunk_loop text max_chars overlap i chunks") auto

lemma chunk_text_blank: "normalize text = [] \<Longrightarrow> chunk_text text max_chars overlap = Some []"
  by (simp add: chunk_text_def chunk_loop.simps)

lemma re_sub_ws_plain: "list_all (\<lambda>c. \<not> is_space c) text \<Longrightarrow> re_sub_ws text = text"
  by (induction "text") auto

lemma normalize_plain:
  assumes "list_all (\<lambda>c. \<not> is_space c) text"
  shows "normalize text = text"
proof (cases "text")
  case Nil
  then show ?thesis by (simp add: normalize_def strip_def)
next
  case (Cons c cs)
  from assms have all: "\<forall>x \<in> set text. \<not> is_space x" by (simp add: list_all_iff)
  then have "dropWhile is_space text = text"
    using Cons by simp
  moreover from all have "dropWhile is_space (rev text) = rev text"
    by (metis dropWhile_eq_self_iff hd_in_set set_rev)
  ultimately show ?thesis
    using assms by (simp add: normalize_def strip_def re_sub_ws_plain)
qed

text \<open>
  C1. The claim: for every text and every \<open>0 \<le> overlap < max_chars\<close> the loop of
  \<open>chunk_text\<close> terminates. The code does the opposite whenever \<open>overlap\<close> is positive and
  the normalized text is not empty: after the window that reaches the end of the text,
  \<open>i\<close> is set to \<open>len(text) - overlap\<close>, which is below \<open>len(text)\<close>, so the exit test never
  holds and the call never returns.
\<close>

theorem chunk_text_never_returns:
  assumes "0 < overlap" and "normalize text \<noteq> []"
  shows "chunk_text text max_chars overlap = None"
  unfolding chunk_text_def using assms by (intro chunk_loop_diverges) auto

theorem chunk_text_never_returns_witness:
  "(0::int) < 1 \<and> normalize ''a b'' \<noteq> [] \<and> chunk_text ''a b'' 2 1 = None"
proof -
  have n: "normalize ''a b'' \<noteq> []"
    by (simp add: normalize_def strip_def is_space_def)
  from chunk_text_never_returns [of 1 "''a b''" 2, OF _ n] n show ?thesis by simp
qed

text \<open>
  C2. The claim, for the default parameters: the empty string gives no chunk, and a text
  whose normalized form is non-empty and shorter than \<open>max_chars\<close> gives exactly one chunk,
  as in \<^verbatim>\<open>chunk("short", 800, 200) == ["short"]\<close>. The first half holds; on \<^verbatim>\<open>"short"\<close>
  the call never returns.
\<close>

theorem chunk_text_defaults_on_examples:
  "chunk_text [] 800 200 = Some [] \<and> chunk_text ''short'' 800 200 = None"
proof -
  have "normalize ''short'' = ''short''"
    by (rule normalize_plain) (simp add: is_space_def)
  then have "chunk_text ''short'' 800 200 = None"
    unfolding chunk_text_def by (simp add: chunk_loop_diverges)
  moreover have "chunk_text [] 800 200 = Some []"
    by (rule chunk_text_blank) (simp add: normalize_def strip_def)
  ultimately show ?thesis by simp
qed

text \<open>
  C5. The claim: for \<open>0 \<le> overlap < max_chars\<close> every chunk but the last has length
  \<open>max_chars\<close> and consecutive chunks start \<open>max_chars - overlap\<close> apart, as when 1000
  characters are chunked with \<open>max_chars = 100\<close> and \<open>overlap = 20\<close>. On that input the call
  produces no chunks at all: it never returns.
\<close>

theorem chunk_text_thousand_chars:
  "chunk_text (replicate 1000 CHR ''a'') 100 20 = None"
proof -
  have "normalize (replicate 1000 CHR ''a'') = replicate 1000 CHR ''a''"
    by (rule normalize_plain) (simp add: is_space_def list_all_iff)
  then show ?thesis
    unfolding chunk_text_def by (simp add: chunk_loop_diverges)
qed

subsection \<open>Sequencing\<close>

lemma io_bind_return [simp]: "io_bind (io_return a) f = f a"
  by (rule ext) (simp add: io_bind_def io_return_def)

lemma io_bind_raise [simp]: "io_bind (io_raise e) f = io_raise e"
  by (rule ext) (simp add: io_bind_def io_raise_def)

lemma io_bind_Returns: "m h = (Returns a, h') \<Longrightarrow> io_bind m f h = f a h'"
  by (simp add: io_bind_def)

lemma io_bind_Raises: "m h = (Raises e, h') \<Longrightarrow> io_bind m f h = (Raises e, h')"
  by (simp add: io_bind_def)

lemma io_bind_Diverges: "m h = (Diverges, h') \<Longrightarrow> io_bind m f h = (Diverges, h')"
  by (simp add: io_bind_def)

lemma io_bind_ReturnsE:
  assumes "io_bind m f h = (Returns b, h2)"
  obtains a h1 where "m h = (Returns a, h1)" and "f a h1 = (Returns b, h2)"
  using assms by (auto simp: io_bind_def split: prod.splits outcome.splits)

lemmas run_defs = io_bind_def io_return_def io_raise_def send_def raise_for_status_def
  response_json_def print_msg_def

lemma lift_Returns [simp]: "lift x h = (Returns v, h') \<longleftrightarrow> x = Inr v \<and> h' = h"
  by (cases x) (auto simp: io_return_def io_raise_def)

subsection \<open>The embedding provider\<close>

lemma number_is_no_list: "isinstance_int_float x \<Longrightarrow> \<not> isinstance_list x"
  by (cases x) simp_all

text \<open>
  C3 (as amended). When the Hugging Face request succeeds with payload \<open>data\<close>,
  \<open>embed_batch\<close> looks at the type of \<open>data\<close> and of its first item only: a list that starts
  with a list is returned as the embeddings, unchanged; a list that starts with a number
  is returned as one embedding; the empty list gives the empty list of vectors and no
  error; and a payload that is not a list raises the \<^verbatim>\<open>RuntimeError\<close> that carries the
  payload.
\<close>

theorem embed_batch_hf_shapes:
  assumes hf: "\<not> USE_OPENAI cfg" "USE_HF cfg"
    and token: "hf_api_token cfg = Some token" "token \<noteq> []"
    and answer: "http env h (hf_request cfg token texts) = Some resp"
    and status: "\<not> (400 \<le> status_code resp \<and> status_code resp < 600)"
    and payload: "json_body resp = Some data"
  shows "(\<forall>v rest. data = PList (PList v # rest) \<longrightarrow>
            fst (embed_batch cfg env texts h) = Returns (PList v # rest)) \<and>
         (\<forall>x rest. data = PList (x # rest) \<and> isinstance_int_float x \<longrightarrow>
            fst (embed_batch cfg env texts h) = Returns [data]) \<and>
         (data = PList [] \<longrightarrow> fst (embed_batch cfg env texts h) = Returns []) \<and>
         (\<not> isinstance_list data \<longrightarrow>
            fst (embed_batch cfg env texts h) = Raises (RuntimeError (UnexpectedHFFormat data)))"
proof -
  have run: "fst (embed_batch cfg env texts h) =
      fst (lift (hf_vectors data) (h @ [Http (hf_request cfg token texts) (Some resp)]))"
    using assms by (auto simp: embed_batch_def run_defs)
  show ?thesis
    unfolding run by (cases data) (auto simp: io_return_def io_raise_def dest: number_is_no_list)
qed

theorem embed_batch_hf_shapes_witness:
  "fst (embed_batch example_config (env_answering (ok (PList [PList [PFloat 0.1, PFloat 0.2]])) [])
      [''hello''] []) = Returns [PList [PFloat 0.1, PFloat 0.2]] \<and>
   fst (embed_batch example_config (env_answering (ok (PList [PFloat 0.1, PFloat 0.2])) [])
      [''hello''] []) = Returns [PList [PFloat 0.1, PFloat 0.2]] \<and>
   fst (embed_batch example_config (env_answering (ok (PDict [])) [])
      [''hello''] []) = Raises (RuntimeError (UnexpectedHFFormat (PDict [])))"
proof -
  have cfg: "\<not> USE_OPENAI example_config" "USE_HF example_config"
    "hf_api_token example_config = Some ''token''" "''token'' \<noteq> []"
    by (simp_all add: USE_OPENAI_def USE_HF_def example_config_def)
  have env: "http (env_answering (ok v) []) h req = Some (ok v)"
    "\<not> (400 \<le> status_code (ok v) \<and> status_code (ok v) < 600)"
    "json_body (ok v) = Some v" for v h req
    by (simp_all add: env_answering_def ok_def)
  note shapes = embed_batch_hf_shapes [OF cfg env, where h = "[]" and texts = "[''hello'']"]
  from shapes [of "PList [PList [PFloat 0.1, PFloat 0.2]]"]
    shapes [of "PList [PFloat 0.1, PFloat 0.2]"]
    shapes [of "PDict []"]
  show ?thesis by simp
qed

text \<open>
  C3 as stated says that an empty sequence, and a sequence whose items are neither
  numbers nor sequences, raise the provider-response error. Neither does: the payloads
  \<^verbatim>\<open>[]\<close> and \<^verbatim>\<open>["x"]\<close> are lists, neither test on the first item applies, and the call
  returns the empty list of vectors.
\<close>

theorem embed_batch_hf_accepts_other_lists:
  "fst (embed_batch example_config (env_answering (ok (PList [])) []) [''hello''] []) = Returns [] \<and>
   fst (embed_batch example_config (env_answering (ok (PList [PStr ''x''])) []) [''hello''] [])
     = Returns []"
  by (simp add: embed_batch_def run_defs USE_OPENAI_def USE_HF_def example_config_def
      env_answering_def ok_def hf_request_def)

text \<open>
  C4 (as amended). For a non-empty batch, a call of \<open>embed_batch\<close> that returns gives as
  many vectors as there are inputs provided the backend answers with one embedding for
  each input: the OpenAI client with one item for each input, the Hugging Face endpoint
  with a list of as many lists as inputs or, for a batch of one, a flat list of numbers.
  The code itself never compares the two lengths.
\<close>

theorem embed_batch_length:
  assumes nonempty: "texts \<noteq> []"
    and ret: "embed_batch cfg env texts h = (Returns vectors, h')"
    and openai: "\<And>vs. USE_OPENAI cfg \<Longrightarrow>
        openai_embeddings env h ''text-embedding-3-small'' texts = Some vs \<Longrightarrow>
        length vs = length texts"
    and hf: "\<And>token resp. \<not> USE_OPENAI cfg \<Longrightarrow>
        http env h (hf_request cfg token texts) = Some resp \<Longrightarrow>
        \<not> (400 \<le> status_code resp \<and> status_code resp < 600) \<Longrightarrow>
        \<exists>x rest. json_body resp = Some (PList (x # rest)) \<and>
          (isinstance_list x \<and> length (x # rest) = length texts \<or>
           isinstance_int_float x \<and> length texts = 1)"
  shows "length vectors = length texts"
proof (cases "USE_OPENAI cfg")
  case True
  with ret openai show ?thesis
    by (auto simp: embed_batch_def openai_create_def Let_def split: option.splits)
next
  case False
  with ret obtain token resp data where
    answer: "http env h (hf_request cfg token texts) = Some resp"
    and status: "\<not> (400 \<le> status_code resp \<and> status_code resp < 600)"
    and body: "json_body resp = Some data"
    and vs: "hf_vectors data = Inr vectors"
    by (auto simp: embed_batch_def run_defs Let_def split: option.splits if_splits)
  from hf [OF False answer status] body obtain x rest where
    xs: "data = PList (x # rest)"
    and shape: "isinstance_list x \<and> length (x # rest) = length texts \<or>
           isinstance_int_float x \<and> length texts = 1"
    by auto
  from shape vs show ?thesis
    unfolding xs by (auto split: if_splits dest: number_is_no_list)
qed

theorem embed_batch_length_witness:
  "fst (embed_batch example_config
          (env_answering (ok (PList [PList [PFloat 0.1], PList [PFloat 0.2]])) [])
          [''a'', ''b''] []) = Returns [PList [PFloat 0.1], PList [PFloat 0.2]] \<and>
   fst (embed_batch openai_config
          (env_answering (ok PNone) [PList [PFloat 0.1], PList [PFloat 0.2]])
          [''a'', ''b''] []) = Returns [PList [PFloat 0.1], PList [PFloat 0.2]] \<and>
   length [PList [PFloat 0.1], PList [PFloat 0.2]] = length [''a'', ''b'']"
proof -
  let ?vs = "[PList [PFloat 0.1], PList [PFloat 0.2]]"
  let ?hf = "env_answering (ok (PList ?vs)) []"
  let ?oa = "env_answering (ok PNone) ?vs"
  have hf: "fst (embed_batch example_config ?hf [''a'', ''b''] []) = Returns ?vs"
    by (simp add: embed_batch_def run_defs USE_OPENAI_def USE_HF_def example_config_def
        env_answering_def ok_def hf_request_def)
  have oa: "fst (embed_batch openai_config ?oa [''a'', ''b''] []) = Returns ?vs"
    by (simp add: embed_batch_def openai_create_def USE_OPENAI_def openai_config_def
        example_config_def env_answering_def)
  have "length ?vs = length [''a'', ''b'']"
  proof (rule embed_batch_length [where cfg = example_config and env = ?hf and h = "[]"])
    show "embed_batch example_config ?hf [''a'', ''b''] [] =
        (Returns ?vs, snd (embed_batch example_config ?hf [''a'', ''b''] []))"
      using hf by (metis prod.collapse)
  qed (auto simp: env_answering_def ok_def USE_OPENAI_def example_config_def)
  moreover have "length ?vs = length [''a'', ''b'']"
  proof (rule embed_batch_length [where cfg = openai_config and env = ?oa and h = "[]"])
    show "embed_batch openai_config ?oa [''a'', ''b''] [] =
        (Returns ?vs, snd (embed_batch openai_config ?oa [''a'', ''b''] []))"
      using oa by (metis prod.collapse)
  qed (auto simp: env_answering_def USE_OPENAI_def openai_config_def example_config_def)
  ultimately show ?thesis using hf oa by simp
qed

text \<open>
  C4 as stated holds for no backend that answers otherwise: a flat list of numbers in
  answer to two chunks is accepted and comes back as one vector.
\<close>

theorem embed_batch_one_vector_for_two_chunks:
  "fst (embed_batch example_config (env_answering (ok (PList [PFloat 0.1, PFloat 0.2])) [])
      [''a'', ''b''] []) = Returns [PList [PFloat 0.1, PFloat 0.2]] \<and>
   length [PList [PFloat 0.1, PFloat 0.2]] \<noteq> length [''a'', ''b'']"
  by (simp add: embed_batch_def run_defs USE_OPENAI_def USE_HF_def example_config_def
      env_answering_def ok_def hf_request_def)

subsection \<open>The upsert\<close>

lemma length_uuids [simp]: "length (uuids env h n) = n"
  by (induction n arbitrary: h) (simp_all add: Let_def)

lemma build_points_run:
  "build_points env meta pairs pts h =
     (Returns (pts @ map (\<lambda>(uid, chunk, vec). point uid vec meta chunk)
                       (zip (uuids env h (length pairs)) pairs)),
      h @ map Uuid4 (uuids env h (length pairs)))"
proof (induction pairs arbitrary: pts h)
  case Nil
  then show ?case by simp
next
  case (Cons p pairs)
  obtain chunk vec where p: "p = (chunk, vec)" by (cases p)
  show ?case unfolding p by (simp add: Cons.IH Let_def)
qed

lemma points_by_index:
  assumes "length ids = min (length chunks) (length vectors)"
  shows "map (\<lambda>(uid, chunk, vec). point uid vec meta chunk) (zip ids (zip chunks vectors)) =
         map (\<lambda>k. point (ids ! k) (vectors ! k) meta (chunks ! k))
           [0..<min (length chunks) (length vectors)]"
  using assms by (intro nth_equalityI) simp_all

lemma map_of_dict_set: "map_of (dict_set meta k v) = (map_of meta)(k \<mapsto> v)"
  by (induction meta) auto

lemma qdrant_upsert_run:
  "qdrant_upsert cfg env chunks vectors meta h =
     (let n = min (length chunks) (length vectors);
          ids = uuids env h n;
          points = map (\<lambda>k. point (ids ! k) (vectors ! k) meta (chunks ! k)) [0..<n];
          h1 = h @ map Uuid4 ids;
          r = http env h1 (upsert_request cfg points)
      in (case r of
            None \<Rightarrow> Raises ConnectionError
          | Some resp \<Rightarrow>
              if 400 \<le> status_code resp \<and> status_code resp < 600
              then Raises (HTTPError (status_code resp)) else Returns PNone,
          h1 @ [Http (upsert_request cfg points) r]))"
proof -
  let ?n = "min (length chunks) (length vectors)"
  have "map (\<lambda>(uid, chunk, vec). point uid vec meta chunk)
          (zip (uuids env h ?n) (zip chunks vectors)) =
        map (\<lambda>k. point (uuids env h ?n ! k) (vectors ! k) meta (chunks ! k)) [0..<?n]"
    by (rule points_by_index) simp
  then show ?thesis
    by (simp add: qdrant_upsert_def run_defs build_points_run Let_def split: option.splits)
qed

text \<open>
  C10. For all \<open>chunks\<close>, \<open>vectors\<close> and \<open>meta\<close>, \<open>qdrant_upsert\<close> builds exactly
  \<open>min (len chunks) (len vectors)\<close> points, the \<open>k\<close>-th from chunk \<open>k\<close> and vector \<open>k\<close> with
  the identifier of the \<open>k\<close>-th call of the generator and with \<open>meta\<close> plus the chunk under
  \<^verbatim>\<open>content\<close> as payload, and sends them in one request. Chunks beyond the vectors are left
  out, and the outcome depends on the answer to that request only.
\<close>

theorem qdrant_upsert_points:
  "qdrant_upsert cfg env chunks vectors meta h =
     (let n = min (length chunks) (length vectors);
          ids = uuids env h n;
          points = map (\<lambda>k. point (ids ! k) (vectors ! k) meta (chunks ! k)) [0..<n];
          h1 = h @ map Uuid4 ids;
          r = http env h1 (upsert_request cfg points)
      in (case r of
            None \<Rightarrow> Raises ConnectionError
          | Some resp \<Rightarrow>
              if 400 \<le> status_code resp \<and> status_code resp < 600
              then Raises (HTTPError (status_code resp)) else Returns PNone,
          h1 @ [Http (upsert_request cfg points) r])) \<and>
   length (uuids env h (min (length chunks) (length vectors))) =
     min (length chunks) (length vectors) \<and>
   (\<exists>payload. point uid vec meta chunk =
        PDict [(''id'', PStr uid), (''vector'', vec), (''payload'', PDict payload)] \<and>
      map_of payload = (map_of meta)(''content'' \<mapsto> PStr chunk))"
proof -
  have "\<exists>payload. point uid vec meta chunk =
        PDict [(''id'', PStr uid), (''vector'', vec), (''payload'', PDict payload)] \<and>
      map_of payload = (map_of meta)(''content'' \<mapsto> PStr chunk)"
    by (simp add: point_def map_of_dict_set)
  with qdrant_upsert_run [of cfg env chunks vectors meta h] show ?thesis by simp
qed

lemma lift_snd [simp]: "snd (lift x h) = h"
  by (cases x) (simp_all add: io_return_def io_raise_def)

lemma lift_Raises [simp]: "lift x h = (Raises e, h') \<longleftrightarrow> x = Inl e \<and> h' = h"
  by (cases x) (auto simp: io_return_def io_raise_def)

lemma lift_Diverges [simp]: "lift x h \<noteq> (Diverges, h')"
  by (cases x) (auto simp: io_return_def io_raise_def)

lemma lift_fst_Diverges [simp]: "fst (lift x h) \<noteq> Diverges"
  by (cases x) (auto simp: io_return_def io_raise_def)

lemma collection_names_log:
  "snd (collection_names cfg env h) =
     h @ [Http (GET (qdrant_url cfg @ ''/collections''))
            (http env h (GET (qdrant_url cfg @ ''/collections'')))]"
  "fst (collection_names cfg env h) \<noteq> Diverges"
  by (auto simp: collection_names_def qdrant_get_collections_def run_defs Let_def
      split: option.splits outcome.splits prod.splits)

lemma ensure_collection_run:
  "ensure_collection cfg env h =
     (case collection_names cfg env h of
        (Returns cols, h1) \<Rightarrow>
          if PStr (collection cfg) \<in> set cols
          then (Returns PNone, h1 @ [Print (CollectionExists (collection cfg))])
          else qdrant_create_collection cfg env h1
      | (Raises e, h1) \<Rightarrow> (Raises e, h1)
      | (Diverges, h1) \<Rightarrow> (Diverges, h1))"
  by (simp add: ensure_collection_def io_bind_def print_msg_def io_return_def
      split: prod.splits outcome.splits)

lemma qdrant_create_collection_run:
  "qdrant_create_collection cfg env h =
     (case http env h (create_request cfg) of
        None \<Rightarrow> (Raises ConnectionError, h @ [Http (create_request cfg) None])
      | Some resp \<Rightarrow>
          if 400 \<le> status_code resp \<and> status_code resp < 600
          then (Raises (HTTPError (status_code resp)), h @ [Http (create_request cfg) (Some resp)])
          else (Returns PNone,
                h @ [Http (create_request cfg) (Some resp),
                     Print (CreatedCollection (collection cfg))]))"
  by (simp add: qdrant_create_collection_def run_defs Let_def split: option.splits)


lemma get_is_no_create [simp]: "GET url \<noteq> create_request cfg"
  by (simp add: create_request_def)

subsection \<open>The collection\<close>

text \<open>
  C7. A call of \<open>ensure_collection\<close> that finds the name in the list returned by the
  collections query sends nothing else and returns; and two calls in a row send at most
  one create-collection request, given an index service that lists a collection once its
  creation has succeeded.
\<close>

theorem ensure_collection_idempotent:
  assumes service: "\<And>h0 r h1 cols.
      collection_names cfg env
        (h0 @ [Http (create_request cfg) (Some r), Print (CreatedCollection (collection cfg))])
        = (Returns cols, h1) \<Longrightarrow> PStr (collection cfg) \<in> set cols"
  shows "(\<forall>cols h1. collection_names cfg env h = (Returns cols, h1) \<and>
            PStr (collection cfg) \<in> set cols \<longrightarrow>
          ensure_collection cfg env h =
            (Returns PNone,
             h @ [Http (GET (qdrant_url cfg @ ''/collections''))
                    (http env h (GET (qdrant_url cfg @ ''/collections''))),
                  Print (CollectionExists (collection cfg))])) \<and>
         length (filter (is_create cfg)
           (snd (ensure_twice cfg env h)))
         \<le> length (filter (is_create cfg) h) + 1"
proof (intro conjI allI impI)
  fix cols h1
  assume listed: "collection_names cfg env h = (Returns cols, h1) \<and> PStr (collection cfg) \<in> set cols"
  then have "h1 = h @ [Http (GET (qdrant_url cfg @ ''/collections''))
                    (http env h (GET (qdrant_url cfg @ ''/collections'')))]"
    using collection_names_log(1) [of cfg env h] by simp
  with listed show "ensure_collection cfg env h =
            (Returns PNone,
             h @ [Http (GET (qdrant_url cfg @ ''/collections''))
                    (http env h (GET (qdrant_url cfg @ ''/collections''))),
                  Print (CollectionExists (collection cfg))])"
    by (simp add: ensure_collection_run)
next
  let ?get = "GET (qdrant_url cfg @ ''/collections'')"
  let ?n = "\<lambda>l. length (filter (is_create cfg) l)"
  have once: "?n (snd (ensure_collection cfg env k)) \<le> ?n k + 1" for k
    using collection_names_log [of cfg env k]
    by (cases "collection_names cfg env k")
      (auto simp: ensure_collection_run qdrant_create_collection_run
        split: outcome.splits option.splits)
  have after_create: "?n (snd (ensure_collection cfg env k)) = ?n k"
    if "k = h0 @ [Http (create_request cfg) (Some r), Print (CreatedCollection (collection cfg))]"
    for k h0 r
    using collection_names_log [of cfg env k] service [of h0 r] that
    by (cases "collection_names cfg env k")
      (auto simp: ensure_collection_run split: outcome.splits)
  obtain out1 h1 where first: "ensure_collection cfg env h = (out1, h1)"
    by (cases "ensure_collection cfg env h")
  show "?n (snd (ensure_twice cfg env h))
        \<le> ?n h + 1"
  proof (cases out1)
    case (Returns v)
    then have snd_eq: "snd (ensure_twice cfg env h) = snd (ensure_collection cfg env h1)"
      using first by (simp add: ensure_twice_def io_bind_def)
    consider (listed) "?n h1 = ?n h"
      | (created) h0 r where "h1 = h0 @ [Http (create_request cfg) (Some r),
            Print (CreatedCollection (collection cfg))]" "?n h1 = ?n h + 1"
      using first Returns collection_names_log [of cfg env h]
      by (cases "collection_names cfg env h")
        (auto simp: ensure_collection_run qdrant_create_collection_run
          split: outcome.splits option.splits if_splits)
    then show ?thesis
    proof cases
      case listed
      with once [of h1] snd_eq show ?thesis by simp
    next
      case created
      with after_create [of h1 h0 r] snd_eq show ?thesis by simp
    qed
  next
    case (Raises e)
    with first once [of h] show ?thesis by (simp add: ensure_twice_def io_bind_def)
  next
    case Diverges
    with first once [of h] show ?thesis by (simp add: ensure_twice_def io_bind_def)
  qed
qed


theorem ensure_collection_idempotent_witness:
  "snd (ensure_twice example_config (fresh_service example_config) []) =
     [Http (GET ''http://localhost:6333/collections'') (Some (ok (listing example_config []))),
      Http (create_request example_config)
        (Some (ok (listing example_config
           [Http (GET ''http://localhost:6333/collections'')
              (Some (ok (listing example_config [])))]))),
      Print (CreatedCollection ''training_chunks''),
      Http (GET ''http://localhost:6333/collections'')
        (Some (ok (PDict [(''result'', PDict [(''collections'',
           PList [PDict [(''name'', PStr ''training_chunks'')]])])]))),
      Print (CollectionExists ''training_chunks'')] \<and>
   length (filter (is_create example_config)
     (snd (ensure_twice example_config (fresh_service example_config) []))) \<le> 1"
proof -
  have service: "PStr (collection example_config) \<in> set cols"
    if "collection_names example_config (fresh_service example_config)
          (h0 @ [Http (create_request example_config) (Some r),
                 Print (CreatedCollection (collection example_config))]) = (Returns cols, h1)"
    for h0 r h1 cols
    using that
    by (auto simp: collection_names_def qdrant_get_collections_def run_defs fresh_service_def
        ok_def listing_def)
  have log: "snd (ensure_twice example_config (fresh_service example_config) []) =
     [Http (GET ''http://localhost:6333/collections'') (Some (ok (listing example_config []))),
      Http (create_request example_config)
        (Some (ok (listing example_config
           [Http (GET ''http://localhost:6333/collections'')
              (Some (ok (listing example_config [])))]))),
      Print (CreatedCollection ''training_chunks''),
      Http (GET ''http://localhost:6333/collections'')
        (Some (ok (PDict [(''result'', PDict [(''collections'',
           PList [PDict [(''name'', PStr ''training_chunks'')]])])]))),
      Print (CollectionExists ''training_chunks'')]"
    by (simp add: ensure_twice_def ensure_collection_def collection_names_def
        qdrant_get_collections_def qdrant_create_collection_def run_defs fresh_service_def
        ok_def listing_def example_config_def create_request_def)
  from ensure_collection_idempotent [of example_config "fresh_service example_config" "[]",
      OF service]
  show ?thesis using log by simp
qed

subsection \<open>Ingesting a document\<close>

lemma blank_chunks: "chunk_text ''   '' 800 200 = Some []"
  by (rule chunk_text_blank) (simp add: normalize_def strip_def is_space_def)

lemma ingest_blank:
  "ingest_doc example_config (scripted_service example_config code ''   '')
     ''data/courseA/mod1/lesson.txt'' h =
   (Returns PNone,
    h @ [Print (Ingesting ''data/courseA/mod1/lesson.txt''),
     FileRead ''data/courseA/mod1/lesson.txt'' (Text ''   ''),
     Http (hf_request example_config ''token'' []) (Some (ok (PList []))),
     Http (upsert_request example_config []) (Some (ok PNone)),
     Print (Ingested 0)])"
  by (simp add: ingest_doc_def ingest_chunks_def read_text_def chunk_default_def blank_chunks
      embed_batch_def qdrant_upsert_def run_defs USE_OPENAI_def USE_HF_def example_config_def
      scripted_service_def ok_def hf_request_def upsert_request_def create_request_def)

lemma ensure_collection_cases:
  obtains
    (no_list) r e where
      "ensure_collection cfg env h =
         (Raises e, h @ [Http (GET (qdrant_url cfg @ ''/collections'')) r])"
  | (listed) r where
      "ensure_collection cfg env h =
         (Returns PNone, h @ [Http (GET (qdrant_url cfg @ ''/collections'')) r,
            Print (CollectionExists (collection cfg))])"
  | (no_answer) r where
      "ensure_collection cfg env h =
         (Raises ConnectionError, h @ [Http (GET (qdrant_url cfg @ ''/collections'')) r,
            Http (create_request cfg) None])"
  | (refused) r resp where
      "400 \<le> status_code resp \<and> status_code resp < 600"
      "ensure_collection cfg env h =
         (Raises (HTTPError (status_code resp)),
          h @ [Http (GET (qdrant_url cfg @ ''/collections'')) r,
            Http (create_request cfg) (Some resp)])"
  | (created) r resp where
      "\<not> (400 \<le> status_code resp \<and> status_code resp < 600)"
      "ensure_collection cfg env h =
         (Returns PNone, h @ [Http (GET (qdrant_url cfg @ ''/collections'')) r,
            Http (create_request cfg) (Some resp),
            Print (CreatedCollection (collection cfg))])"
proof -
  let ?get = "Http (GET (qdrant_url cfg @ ''/collections''))
     (http env h (GET (qdrant_url cfg @ ''/collections'')))"
  obtain out h1 where names: "collection_names cfg env h = (out, h1)"
    by (cases "collection_names cfg env h")
  with collection_names_log [of cfg env h] have h1: "h1 = h @ [?get]" and "out \<noteq> Diverges"
    by simp_all
  show thesis
  proof (cases out)
    case (Returns cols)
    show ?thesis
    proof (cases "PStr (collection cfg) \<in> set cols")
      case True
      with names Returns h1 show ?thesis
        by (intro listed [of "http env h (GET (qdrant_url cfg @ ''/collections''))"])
          (simp add: ensure_collection_run)
    next
      case False
      with names Returns h1 have run: "ensure_collection cfg env h =
          qdrant_create_collection cfg env (h @ [?get])"
        by (simp add: ensure_collection_run)
      show ?thesis
      proof (cases "http env (h @ [?get]) (create_request cfg)")
        case None
        then show ?thesis
          by (intro no_answer [of "http env h (GET (qdrant_url cfg @ ''/collections''))"])
            (simp add: run qdrant_create_collection_run)
      next
        case (Some resp)
        show ?thesis
        proof (cases "400 \<le> status_code resp \<and> status_code resp < 600")
          case True
          with Some show ?thesis
            by (intro refused [of resp "http env h (GET (qdrant_url cfg @ ''/collections''))"])
              (simp_all add: run qdrant_create_collection_run)
        next
          case False
          with Some show ?thesis
            by (intro created [of resp "http env h (GET (qdrant_url cfg @ ''/collections''))"])
              (simp_all add: run qdrant_create_collection_run)
        qed
      qed
    qed
  next
    case (Raises e)
    with names h1 show ?thesis
      by (intro no_list [of e "http env h (GET (qdrant_url cfg @ ''/collections''))"])
        (simp add: ensure_collection_run)
  next
    case Diverges
    with \<open>out \<noteq> Diverges\<close> show ?thesis by simp
  qed
qed

subsection \<open>What a procedure adds to the log\<close>

lemma addsI: "(\<And>h. \<exists>new. snd (m h) = h @ new \<and> list_all Q new) \<Longrightarrow> adds Q m"
  by (simp add: adds_def)

lemma addsD: "adds Q m \<Longrightarrow> \<exists>new. snd (m h) = h @ new \<and> list_all Q new"
  by (simp add: adds_def)

lemma adds_bind:
  assumes m: "adds Q m" and f: "\<And>a. adds Q (f a)"
  shows "adds Q (io_bind m f)"
proof (rule addsI)
  fix h
  obtain out h1 where run: "m h = (out, h1)" by (cases "m h")
  from addsD [OF m, of h] run obtain new where new: "h1 = h @ new" "list_all Q new" by auto
  show "\<exists>new. snd (io_bind m f h) = h @ new \<and> list_all Q new"
  proof (cases out)
    case (Returns a)
    from addsD [OF f, of a h1] obtain new' where "snd (f a h1) = h1 @ new'" "list_all Q new'"
      by auto
    with run new Returns show ?thesis
      by (intro exI [of _ "new @ new'"]) (simp add: io_bind_def)
  next
    case (Raises e)
    with run new show ?thesis by (intro exI [of _ new]) (simp add: io_bind_def)
  next
    case Diverges
    with run new show ?thesis by (intro exI [of _ new]) (simp add: io_bind_def)
  qed
qed

lemma adds_return [simp]: "adds Q (io_return a)"
  by (simp add: adds_def io_return_def)

lemma adds_raise [simp]: "adds Q (io_raise e)"
  by (simp add: adds_def io_raise_def)

lemma adds_lift [simp]: "adds Q (lift x)"
  by (cases x) simp_all

lemma adds_raise_for_status [simp]: "adds Q (raise_for_status r)"
  by (simp add: raise_for_status_def)

lemma adds_response_json [simp]: "adds Q (response_json r)"
  by (simp add: response_json_def split: option.splits)

lemma adds_chunk_default [simp]: "adds Q (chunk_default s)"
  by (simp add: adds_def chunk_default_def split: option.splits)

lemma adds_print: "Q (Print m) \<Longrightarrow> adds Q (print_msg m)"
  by (simp add: adds_def print_msg_def)

lemma adds_send: "(\<And>r. Q (Http req r)) \<Longrightarrow> adds Q (send env req)"
  by (simp add: adds_def send_def Let_def)

lemma adds_read_text: "(\<And>r. Q (FileRead path r)) \<Longrightarrow> adds Q (read_text env path)"
  by (simp add: adds_def read_text_def Let_def)

lemma adds_glob_txt: "(\<And>ps. Q (GlobFiles pat ps)) \<Longrightarrow> adds Q (glob_txt env pat)"
  by (simp add: adds_def glob_txt_def Let_def)

lemma adds_openai_create:
  "(\<And>r. Q (OpenAIEmbeddings model texts r)) \<Longrightarrow> adds Q (openai_create env model texts)"
  by (simp add: adds_def openai_create_def Let_def)

lemma adds_embed_batch:
  assumes "\<And>model r. Q (OpenAIEmbeddings model texts r)"
    and "\<And>token r. Q (Http (hf_request cfg token texts) r)"
  shows "adds Q (embed_batch cfg env texts)"
  unfolding embed_batch_def using assms
  by (auto intro!: adds_bind adds_send adds_openai_create split: option.splits)

lemma adds_qdrant_upsert:
  assumes "\<And>uid. Q (Uuid4 uid)" and "\<And>points r. Q (Http (upsert_request cfg points) r)"
  shows "adds Q (qdrant_upsert cfg env chunks vectors meta)"
proof (rule addsI)
  fix h
  show "\<exists>new. snd (qdrant_upsert cfg env chunks vectors meta h) = h @ new \<and> list_all Q new"
    using assms by (simp add: qdrant_upsert_run Let_def list_all_iff)
qed

lemma adds_ingest_doc:
  assumes "\<And>m. Q (Print m)" and "\<And>r. Q (FileRead path r)"
    and "\<And>model texts r. Q (OpenAIEmbeddings model texts r)"
    and "\<And>token texts r. Q (Http (hf_request cfg token texts) r)"
    and "\<And>uid. Q (Uuid4 uid)" and "\<And>points r. Q (Http (upsert_request cfg points) r)"
  shows "adds Q (ingest_doc cfg env path)"
  unfolding ingest_doc_def ingest_chunks_def using assms
  by (intro adds_bind adds_print adds_read_text adds_chunk_default adds_embed_batch
      adds_qdrant_upsert adds_return)

lemma adds_ingest_all:
  assumes "\<And>m. Q (Print m)" and "\<And>path r. Q (FileRead path r)"
    and "\<And>model texts r. Q (OpenAIEmbeddings model texts r)"
    and "\<And>token texts r. Q (Http (hf_request cfg token texts) r)"
    and "\<And>uid. Q (Uuid4 uid)" and "\<And>points r. Q (Http (upsert_request cfg points) r)"
  shows "adds Q (ingest_all cfg env paths)"
  using assms by (induction paths) (auto intro!: adds_bind adds_ingest_doc)

subsection \<open>The batch run\<close>

lemma create_is_no_ingestion [simp]: "\<not> ingestion_event cfg (Http (create_request cfg) r)"
  by (simp add: create_request_def)

lemma upsert_is_no_create [simp]: "upsert_request cfg points \<noteq> create_request cfg"
  by (simp add: upsert_request_def create_request_def)

lemma hf_is_no_create [simp]: "hf_request cfg token texts \<noteq> create_request cfg"
  by (simp add: hf_request_def create_request_def)

lemma create_is_no_get [simp]: "create_request cfg \<noteq> GET url"
  by (simp add: create_request_def)

lemma adds_after_ensure:
  "adds (\<lambda>e. \<not> is_create cfg e)
     (io_bind (glob_txt env pat) (\<lambda>paths.
      io_bind (ingest_all cfg env paths) (\<lambda>_.
      io_bind (print_msg Done) (\<lambda>_.
      io_return PNone))))"
  by (intro adds_bind adds_glob_txt adds_ingest_all adds_print adds_return) simp_all

text \<open>
  C8 (as amended). If the index service answers the create-collection request with a
  4xx or 5xx status, the run raises the HTTP error of that status and halts there: its
  log holds no file read, no embedding request and no upsert.
\<close>

theorem main_halts_on_failed_create:
  assumes run: "main cfg env [] = (out, trace)"
    and answered: "Http (create_request cfg) (Some resp) \<in> set trace"
    and failed: "400 \<le> status_code resp" "status_code resp < 600"
  shows "out = Raises (HTTPError (status_code resp)) \<and> filter (ingestion_event cfg) trace = []"
proof -
  let ?get = "GET (qdrant_url cfg @ ''/collections'')"
  let ?rest = "io_bind (glob_txt env ''data/**/*.txt'') (\<lambda>paths.
      io_bind (ingest_all cfg env paths) (\<lambda>_.
      io_bind (print_msg Done) (\<lambda>_.
      io_return PNone)))"
  define h2 where "h2 = [Print Starting,
     Print (if USE_OPENAI cfg then UsingOpenAI
            else if USE_HF cfg then UsingHF (hf_embed_model cfg)
            else UnknownProviderDefaultHF)]"
  have loaded: "\<not> (USE_OPENAI cfg \<and> unset (openai_api_key cfg))"
  proof
    assume "USE_OPENAI cfg \<and> unset (openai_api_key cfg)"
    then have "main cfg env [] = (Raises (RuntimeError MissingOpenAIKey), [])"
      by (simp add: main_def module_init_def io_raise_def)
    with run answered show False by simp
  qed
  then have main: "main cfg env [] = io_bind (ensure_collection cfg env) (\<lambda>_. ?rest) h2"
    by (simp add: main_def module_init_def h2_def) (simp add: io_bind_def print_msg_def)
  have later: "\<exists>new. snd (?rest k) = k @ new \<and> list_all (\<lambda>e. \<not> is_create cfg e) new" for k
    using adds_after_ensure [of cfg env "''data/**/*.txt''"] by (rule addsD)
  have h2_plain: "Http (create_request cfg) (Some resp) \<notin> set h2"
    by (simp add: h2_def)
  have h2_quiet: "filter (ingestion_event cfg) h2 = []"
    by (simp add: h2_def)
  show ?thesis
  proof (cases rule: ensure_collection_cases [of cfg env h2])
    case (no_list r e)
    with main run have "trace = h2 @ [Http ?get r]" by (simp add: io_bind_def)
    with answered h2_plain show ?thesis by simp
  next
    case (listed r)
    from io_bind_Returns [where m = "ensure_collection cfg env" and h = h2 and f = "\<lambda>_. ?rest",
        OF listed] main run
    have "trace = snd (?rest (h2 @ [Http ?get r,
        Print (CollectionExists (collection cfg))]))"
      by (metis snd_conv)
    with later obtain new where "trace = (h2 @ [Http ?get r,
        Print (CollectionExists (collection cfg))]) @ new" "list_all (\<lambda>e. \<not> is_create cfg e) new"
      by metis
    with answered h2_plain show ?thesis by (auto simp: list_all_iff)
  next
    case (no_answer r)
    with main run have "trace = h2 @ [Http ?get r, Http (create_request cfg) None]"
      by (simp add: io_bind_def)
    with answered h2_plain show ?thesis by simp
  next
    case (refused r resp')
    with main run have out: "out = Raises (HTTPError (status_code resp'))"
      and trace: "trace = h2 @ [Http ?get r, Http (create_request cfg) (Some resp')]"
      by (simp_all add: io_bind_def)
    from trace answered h2_plain have "resp' = resp" by simp
    with out trace h2_quiet show ?thesis by simp
  next
    case (created r resp')
    from io_bind_Returns [where m = "ensure_collection cfg env" and h = h2 and f = "\<lambda>_. ?rest",
        OF created(2)] main run
    have "trace = snd (?rest (h2 @ [Http ?get r,
        Http (create_request cfg) (Some resp'), Print (CreatedCollection (collection cfg))]))"
      by (metis snd_conv)
    with later obtain new where "trace = (h2 @ [Http ?get r,
        Http (create_request cfg) (Some resp'), Print (CreatedCollection (collection cfg))]) @ new"
      "list_all (\<lambda>e. \<not> is_create cfg e) new"
      by metis
    with answered h2_plain have "resp' = resp" by (auto simp: list_all_iff)
    with created(1) failed show ?thesis by simp
  qed
qed


lemma main_scripted:
  "main example_config (scripted_service example_config code ''   '') [] =
     io_bind (ingest_all example_config (scripted_service example_config code ''   '')
                [''data/courseA/mod1/lesson.txt''])
       (\<lambda>_. io_bind (print_msg Done) (\<lambda>_. io_return PNone))
       [Print Starting, Print (UsingHF ''sentence-transformers/all-MiniLM-L6-v2''),
        Http (GET ''http://localhost:6333/collections'') (Some (ok (listing example_config []))),
        Http (create_request example_config) (Some \<lparr>status_code = code, json_body = None\<rparr>),
        Print (CreatedCollection ''training_chunks''),
        GlobFiles ''data/**/*.txt'' [''data/courseA/mod1/lesson.txt'']]"
  if "\<not> (400 \<le> code \<and> code < 600)"
  using that
  by (auto simp: main_def module_init_def ensure_collection_def collection_names_def
      qdrant_get_collections_def qdrant_create_collection_def glob_txt_def run_defs Let_def
      USE_OPENAI_def USE_HF_def example_config_def scripted_service_def ok_def listing_def
      create_request_def)

theorem main_halts_on_failed_create_witness:
  "main example_config (scripted_service example_config 500 ''   '') [] =
     (Raises (HTTPError 500),
      [Print Starting, Print (UsingHF ''sentence-transformers/all-MiniLM-L6-v2''),
       Http (GET ''http://localhost:6333/collections'') (Some (ok (listing example_config []))),
       Http (create_request example_config) (Some \<lparr>status_code = 500, json_body = None\<rparr>)]) \<and>
   filter (ingestion_event example_config)
     [Print Starting, Print (UsingHF ''sentence-transformers/all-MiniLM-L6-v2''),
      Http (GET ''http://localhost:6333/collections'') (Some (ok (listing example_config []))),
      Http (create_request example_config) (Some \<lparr>status_code = 500, json_body = None\<rparr>)]
     = []"
proof -
  have run: "main example_config (scripted_service example_config 500 ''   '') [] =
     (Raises (HTTPError 500),
      [Print Starting, Print (UsingHF ''sentence-transformers/all-MiniLM-L6-v2''),
       Http (GET ''http://localhost:6333/collections'') (Some (ok (listing example_config []))),
       Http (create_request example_config) (Some \<lparr>status_code = 500, json_body = None\<rparr>)])"
    by (simp add: main_def module_init_def ensure_collection_def collection_names_def
        qdrant_get_collections_def qdrant_create_collection_def run_defs
        USE_OPENAI_def USE_HF_def example_config_def scripted_service_def ok_def listing_def
        create_request_def)
  from main_halts_on_failed_create [OF run, of "\<lparr>status_code = 500, json_body = None\<rparr>"]
  show ?thesis using run by simp
qed

text \<open>
  C8 as stated speaks of every status outside 2xx. \<^verbatim>\<open>raise_for_status\<close> lets a 3xx status
  pass: with 304 in answer to the create-collection request the run goes on, reads the
  document and sends the embedding and upsert requests.
\<close>

theorem main_goes_on_after_304:
  "main example_config (scripted_service example_config 304 ''   '') [] =
     (Returns PNone,
      [Print Starting, Print (UsingHF ''sentence-transformers/all-MiniLM-L6-v2''),
       Http (GET ''http://localhost:6333/collections'') (Some (ok (listing example_config []))),
       Http (create_request example_config) (Some \<lparr>status_code = 304, json_body = None\<rparr>),
       Print (CreatedCollection ''training_chunks''),
       GlobFiles ''data/**/*.txt'' [''data/courseA/mod1/lesson.txt''],
       Print (Ingesting ''data/courseA/mod1/lesson.txt''),
       FileRead ''data/courseA/mod1/lesson.txt'' (Text ''   ''),
       Http (hf_request example_config ''token'' []) (Some (ok (PList []))),
       Http (upsert_request example_config []) (Some (ok PNone)),
       Print (Ingested 0),
       Print Done])"
  by (simp add: main_scripted io_bind_def ingest_blank print_msg_def io_return_def)

subsection \<open>Chunking without overlap\<close>

lemma py_slice_window:
  assumes "0 \<le> i" "i \<le> j" "j \<le> int (length xs)"
  shows "py_slice xs i j = take (nat (j - i)) (drop (nat i) xs)"
  using assms by (simp add: py_slice_def slice_index_def Let_def min_def)

lemma chunk_loop_no_overlap:
  assumes "0 < max_chars" "0 \<le> i"
  shows "\<exists>new. chunk_loop doc max_chars 0 i chunks = Some (chunks @ new) \<and>
           concat new = drop (nat i) doc \<and>
           (\<forall>c \<in> set (butlast new). int (length c) = max_chars) \<and>
           (\<forall>c \<in> set new. c \<noteq> [])"
  using assms(2)
proof (induction "length doc - nat i" arbitrary: i chunks rule: less_induct)
  case less
  show ?case
  proof (cases "i < int (length doc)")
    case False
    with less.prems show ?thesis
      by (intro exI [of _ "[]"]) (simp add: chunk_loop.simps)
  next
    case True
    define j where "j = min (i + max_chars) (int (length doc))"
    from True assms(1) less.prems have j: "i < j" "j \<le> int (length doc)" "0 \<le> j"
      by (auto simp: j_def)
    then have "length doc - nat j < length doc - nat i" using less.prems by linarith
    from less.hyps [OF this \<open>0 \<le> j\<close>, of "chunks @ [py_slice doc i j]"]
    obtain new where new: "chunk_loop doc max_chars 0 j (chunks @ [py_slice doc i j]) =
        Some ((chunks @ [py_slice doc i j]) @ new)"
      "concat new = drop (nat j) doc"
      "\<forall>c \<in> set (butlast new). int (length c) = max_chars"
      "\<forall>c \<in> set new. c \<noteq> []"
      by blast
    have step: "chunk_loop doc max_chars 0 i chunks =
        chunk_loop doc max_chars 0 j (chunks @ [py_slice doc i j])"
    proof -
      have "chunk_loop doc max_chars 0 i chunks =
          (if i < int (length doc) then
             (let j = min (i + max_chars) (int (length doc))
              in chunk_loop doc max_chars 0 (if j - 0 < 0 then 0 else j - 0)
                   (chunks @ [py_slice doc i j]))
           else Some chunks)"
        by (rule chunk_loop.simps)
      also have "\<dots> = chunk_loop doc max_chars 0 (if j - 0 < 0 then 0 else j - 0)
            (chunks @ [py_slice doc i j])"
        using True unfolding j_def Let_def by (simp only: if_True)
      also have "(if j - 0 < 0 then 0 else j - 0) = j"
        using \<open>0 \<le> j\<close> by simp
      finally show ?thesis .
    qed
    have window: "py_slice doc i j = take (nat (j - i)) (drop (nat i) doc)"
      using less.prems j by (intro py_slice_window) simp_all
    have len: "length (py_slice doc i j) = nat (j - i)"
      using j less.prems unfolding window by simp
    have cat: "py_slice doc i j @ drop (nat j) doc = drop (nat i) doc"
    proof -
      have "nat (j - i) + nat i = nat j" using j less.prems by linarith
      then have "drop (nat (j - i)) (drop (nat i) doc) = drop (nat j) doc"
        by (simp only: drop_drop)
      moreover have "take (nat (j - i)) (drop (nat i) doc) @
          drop (nat (j - i)) (drop (nat i) doc) = drop (nat i) doc"
        by (rule append_take_drop_id)
      ultimately show ?thesis unfolding window by (simp only:)
    qed
    have full: "int (length (py_slice doc i j)) = max_chars" if "new \<noteq> []"
    proof -
      from that new(2,4) have "drop (nat j) doc \<noteq> []"
        by (metis concat_eq_Nil_conv last_in_set)
      then have "j < int (length doc)" by simp
      then have "j = i + max_chars" by (simp add: j_def)
      with len j show ?thesis by simp
    qed
    have nonempty: "py_slice doc i j \<noteq> []"
      using len j by auto
    show ?thesis
    proof (intro exI [of _ "py_slice doc i j # new"] conjI)
      show "chunk_loop doc max_chars 0 i chunks = Some (chunks @ py_slice doc i j # new)"
        using step new(1) by simp
      show "concat (py_slice doc i j # new) = drop (nat i) doc"
        using new(2) cat by simp
      show "\<forall>c \<in> set (butlast (py_slice doc i j # new)). int (length c) = max_chars"
        using new(3) full by auto
      show "\<forall>c \<in> set (py_slice doc i j # new). c \<noteq> []"
        using new(4) nonempty by auto
    qed
  qed
qed

text \<open>
  Without overlap the loop does end. For \<open>overlap = 0\<close> and a positive \<open>max_chars\<close>,
  \<open>chunk_text\<close> returns chunks that are not empty, that concatenate to the normalized text,
  and that all have length \<open>max_chars\<close> except possibly the last.
\<close>

theorem chunk_text_without_overlap:
  assumes "0 < max_chars"
  shows "\<exists>chunks. chunk_text doc max_chars 0 = Some chunks \<and>
           concat chunks = normalize doc \<and>
           (\<forall>c \<in> set (butlast chunks). int (length c) = max_chars) \<and>
           (\<forall>c \<in> set chunks. c \<noteq> [])"
  using chunk_loop_no_overlap [OF assms, of 0 "normalize doc" "[]"]
  by (simp add: chunk_text_def)

theorem chunk_text_without_overlap_witness:
  "chunk_text ''one  two three'' 5 0 = Some [''one t'', ''wo th'', ''ree'']"
proof -
  have n: "normalize ''one  two three'' = ''one two three''"
    by (simp add: normalize_def strip_def is_space_def)
  have "chunk_text ''one  two three'' 5 0 = Some [''one t'', ''wo th'', ''ree'']"
    unfolding chunk_text_def n
    by (simp add: chunk_loop.simps py_slice_def slice_index_def Let_def)
  with chunk_text_without_overlap [of 5 "''one  two three''"] show ?thesis by simp
qed

subsection \<open>What ingesting a document returns\<close>

lemma ingest_doc_run:
  "ingest_doc cfg env path h =
     (case file_text env (h @ [Print (Ingesting path)]) path of
        CannotOpen \<Rightarrow>
          (Raises (OSError path), h @ [Print (Ingesting path), FileRead path CannotOpen])
      | NotUtf8 \<Rightarrow>
          (Raises UnicodeDecodeError, h @ [Print (Ingesting path), FileRead path NotUtf8])
      | Text s \<Rightarrow>
          (case chunk_text s 800 200 of
             None \<Rightarrow> (Diverges, h @ [Print (Ingesting path), FileRead path (Text s)])
           | Some chunks \<Rightarrow>
               ingest_chunks cfg env path chunks
                 (h @ [Print (Ingesting path), FileRead path (Text s)])))"
  by (simp add: ingest_doc_def io_bind_def print_msg_def read_text_def chunk_default_def Let_def
      split: file_read.splits option.splits)

text \<open>
  C9 (as amended). Whenever the embedding and the upsert of the chunks succeed, what
  \<open>ingest_doc\<close> does with the chunks returns \<^verbatim>\<open>None\<close>, after a last \<^verbatim>\<open>print\<close> that reports
  their number; so for a document that is read and chunked, \<open>ingest_doc\<close> returns \<^verbatim>\<open>None\<close>
  and reports the number of chunks that \<open>chunk_text\<close> returned.
\<close>

theorem ingest_doc_prints_count:
  assumes embedded: "embed_batch cfg env chunks h2 = (Returns vectors, h3)"
    and upserted: "qdrant_upsert cfg env chunks vectors (path_meta path) h3 = (Returns u, h4)"
  shows "ingest_chunks cfg env path chunks h2 =
           (Returns PNone, h4 @ [Print (Ingested (length chunks))]) \<and>
         (file_text env (h @ [Print (Ingesting path)]) path = Text s \<and>
          chunk_text s 800 200 = Some chunks \<and>
          h2 = h @ [Print (Ingesting path), FileRead path (Text s)] \<longrightarrow>
          ingest_doc cfg env path h =
            (Returns PNone, h4 @ [Print (Ingested (length chunks))]))"
proof -
  have rest: "ingest_chunks cfg env path chunks h2 =
           (Returns PNone, h4 @ [Print (Ingested (length chunks))])"
    using embedded upserted
    by (simp add: ingest_chunks_def io_bind_def print_msg_def io_return_def)
  then show ?thesis by (auto simp: ingest_doc_run)
qed


lemma two_chunks_run:
  "ingest_chunks example_config
     (env_answering (ok (PList [PList [PFloat 0.1], PList [PFloat 0.2]])) [])
     ''data/courseA/mod1/lesson.txt'' [''Hello'', ''world''] [] =
   (Returns PNone,
    [Http (hf_request example_config ''token'' [''Hello'', ''world''])
       (Some (ok (PList [PList [PFloat 0.1], PList [PFloat 0.2]]))),
     Uuid4 ''uu'', Uuid4 ''uuu'',
     Http (upsert_request example_config
        [point ''uu'' (PList [PFloat 0.1]) (path_meta ''data/courseA/mod1/lesson.txt'') ''Hello'',
         point ''uuu'' (PList [PFloat 0.2]) (path_meta ''data/courseA/mod1/lesson.txt'') ''world''])
       (Some (ok (PList [PList [PFloat 0.1], PList [PFloat 0.2]]))),
     Print (Ingested 2)])"
  by (simp add: ingest_chunks_def embed_batch_def qdrant_upsert_def run_defs USE_OPENAI_def
      USE_HF_def example_config_def env_answering_def ok_def hf_request_def upsert_request_def
      Let_def)

theorem ingest_doc_prints_count_witness:
  "ingest_chunks example_config
     (env_answering (ok (PList [PList [PFloat 0.1], PList [PFloat 0.2]])) [])
     ''data/courseA/mod1/lesson.txt'' [''Hello'', ''world''] [] =
   (Returns PNone,
    [Http (hf_request example_config ''token'' [''Hello'', ''world''])
       (Some (ok (PList [PList [PFloat 0.1], PList [PFloat 0.2]]))),
     Uuid4 ''uu'', Uuid4 ''uuu'',
     Http (upsert_request example_config
        [point ''uu'' (PList [PFloat 0.1]) (path_meta ''data/courseA/mod1/lesson.txt'') ''Hello'',
         point ''uuu'' (PList [PFloat 0.2]) (path_meta ''data/courseA/mod1/lesson.txt'') ''world''])
       (Some (ok (PList [PList [PFloat 0.1], PList [PFloat 0.2]])))] @
    [Print (Ingested (length [''Hello'', ''world'']))]) \<and>
   ingest_doc example_config (scripted_service example_config 200 ''   '')
     ''data/courseA/mod1/lesson.txt'' [] =
   (Returns PNone,
    [Print (Ingesting ''data/courseA/mod1/lesson.txt''),
     FileRead ''data/courseA/mod1/lesson.txt'' (Text ''   ''),
     Http (hf_request example_config ''token'' []) (Some (ok (PList []))),
     Http (upsert_request example_config []) (Some (ok PNone))] @
    [Print (Ingested (length ([] :: string list)))])"
proof -
  let ?vs = "[PList [PFloat 0.1], PList [PFloat 0.2]]"
  let ?env = "env_answering (ok (PList ?vs)) []"
  let ?path = "''data/courseA/mod1/lesson.txt''"
  let ?h3 = "[Http (hf_request example_config ''token'' [''Hello'', ''world''])
       (Some (ok (PList ?vs)))]"
  have embedded: "embed_batch example_config ?env [''Hello'', ''world''] [] = (Returns ?vs, ?h3)"
    by (simp add: embed_batch_def run_defs USE_OPENAI_def USE_HF_def example_config_def
        env_answering_def ok_def hf_request_def)
  have upserted: "qdrant_upsert example_config ?env [''Hello'', ''world''] ?vs (path_meta ?path) ?h3 =
      (Returns PNone, ?h3 @ [Uuid4 ''uu'', Uuid4 ''uuu'',
        Http (upsert_request example_config
          [point ''uu'' (PList [PFloat 0.1]) (path_meta ?path) ''Hello'',
           point ''uuu'' (PList [PFloat 0.2]) (path_meta ?path) ''world''])
        (Some (ok (PList ?vs)))])"
    by (simp add: qdrant_upsert_def run_defs env_answering_def ok_def Let_def)
  let ?blank = "scripted_service example_config 200 ''   ''"
  let ?k2 = "[Print (Ingesting ?path), FileRead ?path (Text ''   '')]"
  let ?k3 = "?k2 @ [Http (hf_request example_config ''token'' []) (Some (ok (PList [])))]"
  have embedded0: "embed_batch example_config ?blank [] ?k2 = (Returns [], ?k3)"
    by (simp add: embed_batch_def run_defs USE_OPENAI_def USE_HF_def example_config_def
        scripted_service_def ok_def hf_request_def)
  have upserted0: "qdrant_upsert example_config ?blank [] [] (path_meta ?path) ?k3 =
      (Returns PNone, ?k3 @ [Http (upsert_request example_config []) (Some (ok PNone))])"
    by (simp add: qdrant_upsert_def run_defs scripted_service_def ok_def upsert_request_def
        create_request_def example_config_def)
  have read0: "file_text ?blank ([] @ [Print (Ingesting ?path)]) ?path = Text ''   ''"
    by (simp add: scripted_service_def)
  from ingest_doc_prints_count [OF embedded upserted]
    ingest_doc_prints_count [OF embedded0 upserted0, of "[]" "''   ''"] read0 blank_chunks
  show ?thesis by simp
qed

text \<open>
  C9 as stated says that \<open>ingest_doc\<close> returns the number of chunks. On a blank document,
  which has no chunk, it returns \<^verbatim>\<open>None\<close> and not \<open>0\<close>; and with two chunks in hand the rest
  of \<open>ingest_doc\<close> returns \<^verbatim>\<open>None\<close> and not \<open>2\<close>.
\<close>

theorem ingest_doc_returns_none:
  "fst (ingest_doc example_config (scripted_service example_config 200 ''   '')
     ''data/courseA/mod1/lesson.txt'' []) = Returns PNone \<and>
   chunk_text ''   '' 800 200 = Some [] \<and> PNone \<noteq> PInt (int (length ([] :: string list))) \<and>
   fst (ingest_chunks example_config
     (env_answering (ok (PList [PList [PFloat 0.1], PList [PFloat 0.2]])) [])
     ''data/courseA/mod1/lesson.txt'' [''Hello'', ''world''] []) = Returns PNone \<and>
   PNone \<noteq> PInt (int (length [''Hello'', ''world'']))"
  using two_chunks_run by (simp add: ingest_blank blank_chunks)

subsection \<open>Ingesting a document that is not blank\<close>

lemma dropWhile_keeps: "x \<in> set xs \<Longrightarrow> \<not> P x \<Longrightarrow> x \<in> set (dropWhile P xs)"
  by (induction xs) auto

lemma re_sub_ws_keeps: "x \<in> set s \<Longrightarrow> \<not> is_space x \<Longrightarrow> x \<in> set (re_sub_ws s)"
proof (induction s rule: re_sub_ws.induct)
  case 1
  then show ?case by simp
next
  case (2 c cs)
  show ?case
  proof (cases "is_space c")
    case True
    with "2.prems" have "x \<in> set cs" by auto
    with "2.prems" have "x \<in> set (dropWhile is_space cs)" by (simp add: dropWhile_keeps)
    with "2.IH"(1) [OF True] "2.prems" True show ?thesis by simp
  next
    case False
    with "2.IH"(2) "2.prems" show ?thesis by auto
  qed
qed

lemma normalize_nonempty:
  assumes "list_ex (\<lambda>c. \<not> is_space c) s"
  shows "normalize s \<noteq> []"
proof -
  from assms obtain x where x: "x \<in> set s" "\<not> is_space x" by (auto simp: list_ex_iff)
  then have "x \<in> set (re_sub_ws s)" by (rule re_sub_ws_keeps)
  with x(2) have "x \<in> set (dropWhile is_space (re_sub_ws s))" by (simp add: dropWhile_keeps)
  then have "x \<in> set (rev (dropWhile is_space (re_sub_ws s)))" by simp
  with x(2) have "x \<in> set (dropWhile is_space (rev (dropWhile is_space (re_sub_ws s))))"
    by (intro dropWhile_keeps)
  then have "x \<in> set (normalize s)" by (simp add: normalize_def strip_def)
  then show ?thesis by auto
qed

lemma ingest_doc_diverges:
  assumes "file_text env (h @ [Print (Ingesting path)]) path = Text s"
    and "list_ex (\<lambda>c. \<not> is_space c) s"
  shows "ingest_doc cfg env path h =
     (Diverges, h @ [Print (Ingesting path), FileRead path (Text s)])"
proof -
  from assms(2) have "normalize s \<noteq> []" by (rule normalize_nonempty)
  then have "chunk_text s 800 200 = None"
    unfolding chunk_text_def by (intro chunk_loop_diverges) auto
  with assms(1) show ?thesis by (simp add: ingest_doc_run)
qed

text \<open>
  C6. The claim: \<open>ingest_doc\<close> derives \<^verbatim>\<open>doc_id\<close>, \<^verbatim>\<open>course_id\<close> and \<^verbatim>\<open>module_id\<close> from the path
  and attaches them to the payload of every resulting point. For the document of the
  specification, \<^verbatim>\<open>data/courseA/mod1/lesson.txt\<close> holding \<^verbatim>\<open>"Hello world. "\<close> 70 times,
  the metadata is derived as claimed, but no point results: after reading the file the
  call never leaves \<open>chunk_text\<close>, and it sends neither an embedding nor an upsert
  request.
\<close>

theorem ingest_doc_never_ends_on_lesson:
  "ingest_doc example_config
     (scripted_service example_config 200 (concat (replicate 70 ''Hello world. '')))
     ''data/courseA/mod1/lesson.txt'' [] =
   (Diverges,
    [Print (Ingesting ''data/courseA/mod1/lesson.txt''),
     FileRead ''data/courseA/mod1/lesson.txt'' (Text (concat (replicate 70 ''Hello world. '')))]) \<and>
   length (concat (replicate 70 ''Hello world. '')) = 910 \<and>
   path_meta ''data/courseA/mod1/lesson.txt'' =
     [(''doc_id'', PStr ''lesson''), (''course_id'', PStr ''courseA''),
      (''module_id'', PStr ''mod1'')]"
proof -
  let ?doc = "concat (replicate 70 ''Hello world. '')"
  have "CHR ''H'' \<in> set ?doc" by simp
  then have "list_ex (\<lambda>c. \<not> is_space c) ?doc"
    unfolding list_ex_iff by (rule bexI [rotated]) (simp add: is_space_def)
  moreover have "file_text (scripted_service example_config 200 ?doc)
      ([] @ [Print (Ingesting ''data/courseA/mod1/lesson.txt'')])
      ''data/courseA/mod1/lesson.txt'' = Text ?doc"
    by (simp add: scripted_service_def)
  ultimately have "ingest_doc example_config (scripted_service example_config 200 ?doc)
     ''data/courseA/mod1/lesson.txt'' [] =
   (Diverges,
    [] @ [Print (Ingesting ''data/courseA/mod1/lesson.txt''),
     FileRead ''data/courseA/mod1/lesson.txt'' (Text ?doc)])"
    by (intro ingest_doc_diverges)
  moreover have "length ?doc = 910"
    by (simp add: length_concat sum_list_replicate)
  moreover have "path_meta ''data/courseA/mod1/lesson.txt'' =
     [(''doc_id'', PStr ''lesson''), (''course_id'', PStr ''courseA''),
      (''module_id'', PStr ''mod1'')]"
    by (simp add: path_meta_def splitext_def basename_def Let_def)
  ultimately show ?thesis by simp
qed

subsection \<open>Metadata\<close>

lemma split_sep_not_Nil [simp]: "split_sep sep s \<noteq> []"
  by (induction s) (auto split: list.splits)

lemma split_sep_plain: "sep \<notin> set s \<Longrightarrow> split_sep sep s = [s]"
  by (induction s) auto

lemma split_sep_at: "sep \<notin> set b \<Longrightarrow> split_sep sep (a @ sep # b) = split_sep sep a @ [b]"
proof (induction a)
  case Nil
  then show ?case by (simp add: split_sep_plain)
next
  case (Cons c a)
  then show ?case
    by (cases "split_sep sep a") (auto split: list.splits)
qed

lemma after_last_plain: "c \<notin> set b \<Longrightarrow> rev (takeWhile (\<lambda>x. x \<noteq> c) (rev b)) = b"
proof -
  assume "c \<notin> set b"
  then have "\<forall>x \<in> set (rev b). x \<noteq> c" by auto
  then have "takeWhile (\<lambda>x. x \<noteq> c) (rev b) = rev b" by (simp only: takeWhile_eq_all_conv)
  then have "rev (takeWhile (\<lambda>x. x \<noteq> c) (rev b)) = rev (rev b)" by (rule arg_cong)
  then show ?thesis by (simp only: rev_rev_ident)
qed

lemma after_last_at:
  "c \<notin> set b \<Longrightarrow> rev (takeWhile (\<lambda>x. x \<noteq> c) (rev (a @ c # b))) = b"
proof -
  assume b: "c \<notin> set b"
  have "takeWhile (\<lambda>x. x \<noteq> c) (rev b @ c # rev a) = takeWhile (\<lambda>x. x \<noteq> c) (rev b)"
    by (rule takeWhile_tail) simp
  then have "rev (takeWhile (\<lambda>x. x \<noteq> c) (rev b @ c # rev a)) =
      rev (takeWhile (\<lambda>x. x \<noteq> c) (rev b))"
    by (rule arg_cong)
  also have "\<dots> = b" using b by (rule after_last_plain)
  finally show ?thesis by (simp only: rev_append rev.simps append_assoc append_Cons append_Nil)
qed

lemma basename_plain: "CHR ''/'' \<notin> set name \<Longrightarrow> basename name = name"
  unfolding basename_def by (rule after_last_plain)

lemma basename_at: "CHR ''/'' \<notin> set name \<Longrightarrow> basename (dir @ CHR ''/'' # name) = name"
  unfolding basename_def by (rule after_last_at)

lemma stem_of_name:
  assumes "CHR ''/'' \<notin> set stem" "CHR ''/'' \<notin> set ext" "CHR ''.'' \<notin> set ext"
    and "list_ex (\<lambda>c. c \<noteq> CHR ''.'') stem"
  shows "fst (splitext (stem @ CHR ''.'' # ext)) = stem"
proof -
  let ?name = "stem @ CHR ''.'' # ext"
  have base: "basename ?name = ?name"
    using assms(1,2) by (intro basename_plain) auto
  have ext: "rev (takeWhile (\<lambda>c. c \<noteq> CHR ''.'') (rev ?name)) = ext"
    using assms(3) by (rule after_last_at)
  have len: "length ?name - length ext - 1 = length stem" by simp
  have dot: "CHR ''.'' \<in> set ?name" by simp
  show ?thesis
    unfolding splitext_def Let_def base ext len using assms(4) dot by simp
qed

text \<open>
  The metadata of a path by its layout. For a path \<^verbatim>\<open>dir/course/module/stem.ext\<close>, where
  the pieces hold no slash, the extension no dot and the stem a character other than a
  dot, the metadata is \<^verbatim>\<open>stem\<close>, \<^verbatim>\<open>course\<close> and \<^verbatim>\<open>module\<close>; with no course directory the
  course is \<^verbatim>\<open>general\<close>, and with no directory at all the module is \<^verbatim>\<open>intro\<close>.
\<close>

theorem path_meta_of_layout:
  assumes "CHR ''/'' \<notin> set course" "CHR ''/'' \<notin> set lesson_group"
    and "CHR ''/'' \<notin> set stem" "CHR ''/'' \<notin> set ext" "CHR ''.'' \<notin> set ext"
    and "list_ex (\<lambda>c. c \<noteq> CHR ''.'') stem"
  shows "path_meta (dir @ ''/'' @ course @ ''/'' @ lesson_group @ ''/'' @ stem @ ''.'' @ ext) =
           [(''doc_id'', PStr stem), (''course_id'', PStr course), (''module_id'', PStr lesson_group)] \<and>
         path_meta (lesson_group @ ''/'' @ stem @ ''.'' @ ext) =
           [(''doc_id'', PStr stem), (''course_id'', PStr ''general''),
            (''module_id'', PStr lesson_group)] \<and>
         path_meta (stem @ ''.'' @ ext) =
           [(''doc_id'', PStr stem), (''course_id'', PStr ''general''),
            (''module_id'', PStr ''intro'')]"
proof -
  let ?name = "stem @ CHR ''.'' # ext"
  have name: "CHR ''/'' \<notin> set ?name" using assms(3,4) by auto
  have stem: "fst (splitext ?name) = stem"
    using assms(3-6) by (rule stem_of_name)
  have deep: "split_sep CHR ''/'' (dir @ CHR ''/'' # course @ CHR ''/'' # lesson_group @ CHR ''/'' # ?name)
      = split_sep CHR ''/'' dir @ [course, lesson_group, ?name]"
  proof -
    have "split_sep CHR ''/'' (((dir @ CHR ''/'' # course) @ CHR ''/'' # lesson_group) @ CHR ''/'' # ?name)
      = split_sep CHR ''/'' ((dir @ CHR ''/'' # course) @ CHR ''/'' # lesson_group) @ [?name]"
      using name by (rule split_sep_at)
    also have "split_sep CHR ''/'' ((dir @ CHR ''/'' # course) @ CHR ''/'' # lesson_group) =
        split_sep CHR ''/'' (dir @ CHR ''/'' # course) @ [lesson_group]"
      using assms(2) by (rule split_sep_at)
    also have "split_sep CHR ''/'' (dir @ CHR ''/'' # course) = split_sep CHR ''/'' dir @ [course]"
      using assms(1) by (rule split_sep_at)
    finally show ?thesis by simp
  qed
  have mid: "split_sep CHR ''/'' (lesson_group @ CHR ''/'' # ?name) = [lesson_group, ?name]"
    using split_sep_at [OF name, of "lesson_group"] assms(2) by (simp add: split_sep_plain)
  have flat: "split_sep CHR ''/'' ?name = [?name]"
    using name by (rule split_sep_plain)
  have b1: "basename (dir @ CHR ''/'' # course @ CHR ''/'' # lesson_group @ CHR ''/'' # ?name) = ?name"
    using basename_at [OF name, of "dir @ CHR ''/'' # course @ CHR ''/'' # lesson_group"] by simp
  have b2: "basename (lesson_group @ CHR ''/'' # ?name) = ?name"
    using name by (rule basename_at)
  have b3: "basename ?name = ?name"
    using name by (rule basename_plain)
  show ?thesis
    by (simp add: path_meta_def Let_def deep mid flat b1 b2 b3 stem nth_append)
qed

theorem path_meta_of_layout_witness:
  "path_meta ''data/courseA/mod1/lesson.txt'' =
     [(''doc_id'', PStr ''lesson''), (''course_id'', PStr ''courseA''),
      (''module_id'', PStr ''mod1'')] \<and>
   path_meta ''mod1/lesson.txt'' =
     [(''doc_id'', PStr ''lesson''), (''course_id'', PStr ''general''),
      (''module_id'', PStr ''mod1'')] \<and>
   path_meta ''lesson.txt'' =
     [(''doc_id'', PStr ''lesson''), (''course_id'', PStr ''general''),
      (''module_id'', PStr ''intro'')]"
  using path_meta_of_layout [of "''courseA''" "''mod1''" "''lesson''" "''txt''" "''data''"]
  by simp

subsection \<open>What happens to the chunks\<close>

text \<open>
  Once the embeddings are there, \<open>ingest_doc\<close> builds one point for each pair of a chunk
  and a vector, with the metadata of the path and the chunk in its payload, and sends
  them in one upsert request; the \<^verbatim>\<open>print\<close> of the number of chunks follows when the
  request succeeds.
\<close>

theorem ingest_chunks_upserts_with_metadata:
  assumes "embed_batch cfg env chunks h = (Returns vectors, h1)"
  shows "ingest_chunks cfg env path chunks h =
     (let n = min (length chunks) (length vectors);
          ids = uuids env h1 n;
          points = map (\<lambda>k. point (ids ! k) (vectors ! k) (path_meta path) (chunks ! k)) [0..<n];
          h2 = h1 @ map Uuid4 ids;
          r = http env h2 (upsert_request cfg points)
      in (case r of
            None \<Rightarrow> (Raises ConnectionError, h2 @ [Http (upsert_request cfg points) r])
          | Some resp \<Rightarrow>
              if 400 \<le> status_code resp \<and> status_code resp < 600
              then (Raises (HTTPError (status_code resp)),
                    h2 @ [Http (upsert_request cfg points) r])
              else (Returns PNone,
                    h2 @ [Http (upsert_request cfg points) r,
                          Print (Ingested (length chunks))]))) \<and>
   (\<exists>payload. point uid vec (path_meta path) chunk =
        PDict [(''id'', PStr uid), (''vector'', vec), (''payload'', PDict payload)] \<and>
      map_of payload = (map_of (path_meta path))(''content'' \<mapsto> PStr chunk))"
proof -
  have "\<exists>payload. point uid vec (path_meta path) chunk =
        PDict [(''id'', PStr uid), (''vector'', vec), (''payload'', PDict payload)] \<and>
      map_of payload = (map_of (path_meta path))(''content'' \<mapsto> PStr chunk)"
    by (simp add: point_def map_of_dict_set)
  moreover have "ingest_chunks cfg env path chunks h =
     (let n = min (length chunks) (length vectors);
          ids = uuids env h1 n;
          points = map (\<lambda>k. point (ids ! k) (vectors ! k) (path_meta path) (chunks ! k)) [0..<n];
          h2 = h1 @ map Uuid4 ids;
          r = http env h2 (upsert_request cfg points)
      in (case r of
            None \<Rightarrow> (Raises ConnectionError, h2 @ [Http (upsert_request cfg points) r])
          | Some resp \<Rightarrow>
              if 400 \<le> status_code resp \<and> status_code resp < 600
              then (Raises (HTTPError (status_code resp)),
                    h2 @ [Http (upsert_request cfg points) r])
              else (Returns PNone,
                    h2 @ [Http (upsert_request cfg points) r,
                          Print (Ingested (length chunks))])))"
    using assms
    by (simp add: ingest_chunks_def io_bind_def qdrant_upsert_run Let_def print_msg_def
        io_return_def split: option.splits)
  ultimately show ?thesis by simp
qed

theorem ingest_chunks_upserts_with_metadata_witness:
  "ingest_chunks example_config
     (env_answering (ok (PList [PList [PFloat 1], PList [PFloat 2]])) [])
     ''data/courseA/mod1/lesson.txt'' [''Hello'', ''world''] [] =
   (Returns PNone,
    [Http (hf_request example_config ''token'' [''Hello'', ''world''])
       (Some (ok (PList [PList [PFloat 1], PList [PFloat 2]]))),
     Uuid4 ''uu'', Uuid4 ''uuu'',
     Http (upsert_request example_config
        [PDict [(''id'', PStr ''uu''), (''vector'', PList [PFloat 1]),
           (''payload'', PDict [(''doc_id'', PStr ''lesson''), (''course_id'', PStr ''courseA''),
              (''module_id'', PStr ''mod1''), (''content'', PStr ''Hello'')])],
         PDict [(''id'', PStr ''uuu''), (''vector'', PList [PFloat 2]),
           (''payload'', PDict [(''doc_id'', PStr ''lesson''), (''course_id'', PStr ''courseA''),
              (''module_id'', PStr ''mod1''), (''content'', PStr ''world'')])]])
       (Some (ok (PList [PList [PFloat 1], PList [PFloat 2]]))),
     Print (Ingested 2)])"
proof -
  let ?vs = "[PList [PFloat 1], PList [PFloat 2]]"
  let ?env = "env_answering (ok (PList ?vs)) []"
  let ?h1 = "[Http (hf_request example_config ''token'' [''Hello'', ''world''])
       (Some (ok (PList ?vs)))]"
  have embedded: "embed_batch example_config ?env [''Hello'', ''world''] [] = (Returns ?vs, ?h1)"
    by (simp add: embed_batch_def run_defs USE_OPENAI_def USE_HF_def example_config_def
        env_answering_def ok_def hf_request_def)
  have uid: "uuid4 ?env k = replicate (Suc (length k)) CHR ''u''" for k
    by (simp add: env_answering_def)
  have status: "status_code (ok v) = 200" for v
    by (simp add: ok_def)
  have meta: "path_meta ''data/courseA/mod1/lesson.txt'' =
     [(''doc_id'', PStr ''lesson''), (''course_id'', PStr ''courseA''),
      (''module_id'', PStr ''mod1'')]"
    by (simp add: path_meta_def splitext_def basename_def Let_def)
  have answer: "http ?env k req = Some (ok (PList ?vs))" for k req
    by (simp add: env_answering_def)
  from ingest_chunks_upserts_with_metadata
    [OF embedded, of "''data/courseA/mod1/lesson.txt''", THEN conjunct1]
  show ?thesis
    by (simp add: Let_def uid meta answer status point_def)
qed

end
